theory Spec2Isabelle
  imports Main
begin

section \<open>Smart Todo App backend: the store\<close>

text \<open>
  The server (the second document of \<^verbatim>\<open>src/api/db.js\<close>) keeps its state in the SQLite
  tables that the first document creates. A table is modelled as the list of its rows in
  insertion order, a nullable column as an \<open>option\<close> (\<open>None\<close> is SQL NULL; the SQLite
  driver binds a JavaScript \<^verbatim>\<open>undefined\<close> or \<^verbatim>\<open>null\<close> parameter as NULL).
  Only the tables that the handlers below read or write are part of the state.
\<close>

text \<open>
  A due timestamp is stored either as the integer of milliseconds a client sent, or as
  the text that \<^verbatim>\<open>Date.prototype.toISOString\<close> produced for a successor task.
  \<open>DueIso t\<close> stands for the ISO-8601 text of the time value \<open>t\<close>; parsing that text
  with \<^verbatim>\<open>new Date\<close> gives \<open>t\<close> back.
\<close>

datatype due = DueMs int | DueIso int

record task =
  tid :: string
  title :: "string option"
  description :: "string option"
  priority :: "string option"
  completed :: bool
  due_at :: "due option"
  created_by :: "string option"
  assignee :: "string option"
  recurring_rule :: "string option"
  created_at :: "int option"

record user =
  uid :: string
  email :: "string option"

record time_entry =
  eid :: string
  e_task_id :: "string option"
  e_user_id :: "string option"
  started_at :: "int option"
  stopped_at :: "int option"
  duration :: "int option"

record reminder =
  rid :: string
  r_task_id :: "string option"
  r_user_id :: "string option"
  remind_at :: "int option"
  snoozed_until :: "int option"
  sent :: bool

record database =
  users :: "user list"
  tasks :: "task list"
  task_dependencies :: "(string \<times> string) list"
  time_entries :: "time_entry list"
  reminders :: "reminder list"

text \<open>The tables that \<^verbatim>\<open>db.serialize\<close> creates, by name.\<close>

definition schema_tables :: "string list" where
  "schema_tables =
     [''users'', ''teams'', ''team_members'', ''tasks'', ''task_dependencies'',
      ''comments'', ''time_entries'', ''reminders'']"

text \<open>
  The JSON body of a task request and the payload of a sync operation have the same
  shape. A field that the client left out is \<open>None\<close>.
\<close>

record payload =
  p_id :: "string option"
  p_title :: "string option"
  p_description :: "string option"
  p_priority :: "string option"
  p_completed :: "bool option"
  p_due_at :: "due option"
  p_assignee :: "string option"
  p_recurring_rule :: "string option"

datatype response =
    Updated string payload
  | DependencyBlocked "string list"
  | StoreError string
  | DeleteOk
  | EntryNotFound
  | Stopped string int int

text \<open>JavaScript truthiness of the values that the handlers test.\<close>

definition truthy_bool :: "bool option \<Rightarrow> bool" where
  "truthy_bool b = (b = Some True)"

definition truthy_str :: "string option \<Rightarrow> bool" where
  "truthy_str s = (case s of None \<Rightarrow> False | Some x \<Rightarrow> x \<noteq> [])"

definition truthy_int :: "int option \<Rightarrow> bool" where
  "truthy_int n = (case n of None \<Rightarrow> False | Some x \<Rightarrow> x \<noteq> 0)"

definition truthy_due :: "due option \<Rightarrow> bool" where
  "truthy_due d = (case d of None \<Rightarrow> False | Some (DueMs n) \<Rightarrow> n \<noteq> 0 | Some (DueIso t) \<Rightarrow> True)"

section \<open>Dates\<close>

text \<open>
  The time-value arithmetic of ECMAScript's \<^verbatim>\<open>Date\<close>, on integers of milliseconds.
  \<open>None\<close> is the invalid date (NaN). Local time is UTC shifted by a constant offset
  \<open>tz\<close> in milliseconds; daylight-saving changes of the offset are not modelled.
\<close>

definition msPerDay :: int where
  "msPerDay = 86400000"

definition Day :: "int \<Rightarrow> int" where
  "Day t = t div msPerDay"

definition TimeWithinDay :: "int \<Rightarrow> int" where
  "TimeWithinDay t = t mod msPerDay"

definition DayFromYear :: "int \<Rightarrow> int" where
  "DayFromYear y = 365 * (y - 1970) + (y - 1969) div 4 - (y - 1901) div 100 + (y - 1601) div 400"

definition InLeapYear :: "int \<Rightarrow> bool" where
  "InLeapYear y = ((y mod 4 = 0 \<and> y mod 100 \<noteq> 0) \<or> y mod 400 = 0)"

function year_search :: "int \<Rightarrow> int \<Rightarrow> int" where
  "year_search y d = (if DayFromYear (y + 1) \<le> d then year_search (y + 1) d else y)"
  by pat_completeness auto
termination
  by (relation "measure (\<lambda>(y, d). nat (d + 1 - DayFromYear y))")
     (auto simp: DayFromYear_def)

text \<open>The largest year whose first day is not after day number \<open>d\<close>.\<close>

definition YearFromDay :: "int \<Rightarrow> int" where
  "YearFromDay d =
     year_search (if 0 \<le> d then 1970 + d div 366 else 1969 + d div 365) d"

definition YearFromTime :: "int \<Rightarrow> int" where
  "YearFromTime t = YearFromDay (Day t)"

text \<open>The day within its year on which month \<open>m\<close> (0 to 11) starts.\<close>

definition month_start :: "bool \<Rightarrow> int \<Rightarrow> int" where
  "month_start leap m =
     (if m = 0 then 0 else if m = 1 then 31
      else (if leap then 1 else 0) +
        (if m = 2 then 59 else if m = 3 then 90 else if m = 4 then 120
         else if m = 5 then 151 else if m = 6 then 181 else if m = 7 then 212
         else if m = 8 then 243 else if m = 9 then 273 else if m = 10 then 304
         else 334))"

definition DayWithinYear :: "int \<Rightarrow> int" where
  "DayWithinYear t = Day t - DayFromYear (YearFromTime t)"

text \<open>The month (0 to 11) of day \<open>d\<close> within a year, and the number of days of a month.\<close>

definition month_of :: "bool \<Rightarrow> int \<Rightarrow> int" where
  "month_of leap d =
     (if d < month_start leap 1 then 0 else if d < month_start leap 2 then 1
      else if d < month_start leap 3 then 2 else if d < month_start leap 4 then 3
      else if d < month_start leap 5 then 4 else if d < month_start leap 6 then 5
      else if d < month_start leap 7 then 6 else if d < month_start leap 8 then 7
      else if d < month_start leap 9 then 8 else if d < month_start leap 10 then 9
      else if d < month_start leap 11 then 10 else 11)"

definition DaysInMonth :: "bool \<Rightarrow> int \<Rightarrow> int" where
  "DaysInMonth leap m = (if m = 11 then 31 else month_start leap (m + 1) - month_start leap m)"

definition MonthFromTime :: "int \<Rightarrow> int" where
  "MonthFromTime t = month_of (InLeapYear (YearFromTime t)) (DayWithinYear t)"

definition DateFromTime :: "int \<Rightarrow> int" where
  "DateFromTime t =
     DayWithinYear t - month_start (InLeapYear (YearFromTime t)) (MonthFromTime t) + 1"

definition MakeDay :: "int \<Rightarrow> int \<Rightarrow> int \<Rightarrow> int" where
  "MakeDay year month date =
     (let ym = year + month div 12; mn = month mod 12 in
      DayFromYear ym + month_start (InLeapYear ym) mn + date - 1)"

definition MakeDate :: "int \<Rightarrow> int \<Rightarrow> int" where
  "MakeDate day time = day * msPerDay + time"

definition TimeClip :: "int \<Rightarrow> int option" where
  "TimeClip t = (if \<bar>t\<bar> \<le> 8640000000000000 then Some t else None)"

definition LocalTime :: "int \<Rightarrow> int \<Rightarrow> int" where
  "LocalTime tz t = t + tz"

definition UTC :: "int \<Rightarrow> int \<Rightarrow> int" where
  "UTC tz t = t - tz"

text \<open>\<^verbatim>\<open>d.setDate(d.getDate() + k)\<close> and \<^verbatim>\<open>d.setMonth(d.getMonth() + k)\<close>.\<close>

definition setDate_plus :: "int \<Rightarrow> int \<Rightarrow> int \<Rightarrow> int option" where
  "setDate_plus tz k tv =
     (let t = LocalTime tz tv in
      TimeClip (UTC tz (MakeDate (MakeDay (YearFromTime t) (MonthFromTime t) (DateFromTime t + k))
                                 (TimeWithinDay t))))"

definition setMonth_plus :: "int \<Rightarrow> int \<Rightarrow> int \<Rightarrow> int option" where
  "setMonth_plus tz k tv =
     (let t = LocalTime tz tv in
      TimeClip (UTC tz (MakeDate (MakeDay (YearFromTime t) (MonthFromTime t + k) (DateFromTime t))
                                 (TimeWithinDay t))))"

text \<open>\<^verbatim>\<open>new Date(v)\<close> for a stored due value.\<close>

definition new_Date :: "due \<Rightarrow> int option" where
  "new_Date d = (case d of DueMs n \<Rightarrow> TimeClip n | DueIso t \<Rightarrow> TimeClip t)"

section \<open>Single-item task handlers\<close>

text \<open>
  What a handler cannot decide from the store is an input of its model: the error (if
  any) that the SQLite driver reports for each statement, the two clock reads, the
  identifier that \<^verbatim>\<open>uuidv4\<close> returns and the offset of local time. Events sent
  through Socket.IO are not part of the model. A handler returns the store after all its
  callbacks have run, and the HTTP response.
\<close>

record env =
  run_err :: "string option"
  get_err :: "string option"
  insert_err :: "string option"
  date_new :: int
  date_now :: int
  uuidv4 :: string
  tza :: int

text \<open>
  \<^verbatim>\<open>SELECT d.depends_on_id FROM <tbl> d JOIN tasks t ON d.depends_on_id = t.id
  WHERE d.task_id = ? AND t.completed = 0\<close>. The statement fails when the schema has no
  table of that name, or the table has no such columns; the only table with the columns
  \<^verbatim>\<open>task_id\<close> and \<^verbatim>\<open>depends_on_id\<close> is \<^verbatim>\<open>task_dependencies\<close>.
\<close>

definition select_incomplete_deps :: "database \<Rightarrow> string \<Rightarrow> string \<Rightarrow> string + string list" where
  "select_incomplete_deps db tbl i =
     (if tbl \<notin> set schema_tables then Inl (''SQLITE_ERROR: no such table: '' @ tbl)
      else if tbl \<noteq> ''task_dependencies'' then Inl ''SQLITE_ERROR: no such column: d.depends_on_id''
      else Inr [dep. (t, dep) \<leftarrow> task_dependencies db, x \<leftarrow> tasks db,
                     dep = tid x, t = i, \<not> completed x])"

text \<open>\<^verbatim>\<open>UPDATE tasks SET title=?,description=?,priority=?,completed=?,due_at=?,assignee=?,
  recurring_rule=? WHERE id=?\<close> with the request's seven values.\<close>

definition update_row :: "payload \<Rightarrow> task \<Rightarrow> task" where
  "update_row req t =
     t\<lparr>title := p_title req, description := p_description req, priority := p_priority req,
       completed := truthy_bool (p_completed req), due_at := p_due_at req,
       assignee := p_assignee req, recurring_rule := p_recurring_rule req\<rparr>"

definition sql_update_task :: "string option \<Rightarrow> payload \<Rightarrow> task list \<Rightarrow> task list" where
  "sql_update_task i req ts = map (\<lambda>t. if Some (tid t) = i then update_row req t else t) ts"

text \<open>A plain \<^verbatim>\<open>INSERT\<close> fails on a primary key that is already in the table.\<close>

definition sql_insert_task :: "string option \<Rightarrow> task \<Rightarrow> task list \<Rightarrow> string + task list" where
  "sql_insert_task err row ts =
     (case err of Some e \<Rightarrow> Inl e
      | None \<Rightarrow>
          if tid row \<in> set (map tid ts) then Inl ''SQLITE_CONSTRAINT: UNIQUE constraint failed: tasks.id''
          else Inr (ts @ [row]))"

definition currentDue :: "env \<Rightarrow> task \<Rightarrow> int option" where
  "currentDue e taskRow =
     (case due_at taskRow of
        Some d \<Rightarrow> if truthy_due (Some d) then new_Date d else TimeClip (date_new e)
      | None \<Rightarrow> TimeClip (date_new e))"

definition nextDue :: "int \<Rightarrow> string option \<Rightarrow> int option \<Rightarrow> int option" where
  "nextDue tz rule cur =
     (case cur of None \<Rightarrow> None
      | Some t \<Rightarrow>
          if rule = Some ''daily'' then setDate_plus tz 1 t
          else if rule = Some ''weekly'' then setDate_plus tz 7 t
          else if rule = Some ''monthly'' then setMonth_plus tz 1 t
          else Some t)"

definition successor :: "env \<Rightarrow> task \<Rightarrow> int \<Rightarrow> task" where
  "successor e taskRow nd =
     \<lparr>tid = uuidv4 e, title = title taskRow, description = description taskRow,
      priority = priority taskRow, completed = False, due_at = Some (DueIso nd),
      created_by = created_by taskRow, assignee = assignee taskRow,
      recurring_rule = recurring_rule taskRow, created_at = Some (date_now e)\<rparr>"

text \<open>
  The callback of \<^verbatim>\<open>db.get\<close> inside \<^verbatim>\<open>doTaskUpdate\<close>. \<^verbatim>\<open>toISOString\<close> throws on an
  invalid date; nothing is inserted then. Errors of the SELECT and of the INSERT are
  dropped by the source, and so is the case of no row.
\<close>

definition create_next :: "env \<Rightarrow> database \<Rightarrow> string \<Rightarrow> string option \<Rightarrow> database" where
  "create_next e db i rule =
     (case get_err e of Some err \<Rightarrow> db
      | None \<Rightarrow>
         (case find (\<lambda>t. tid t = i) (tasks db) of None \<Rightarrow> db
          | Some taskRow \<Rightarrow>
             (case nextDue (tza e) rule (currentDue e taskRow) of None \<Rightarrow> db
              | Some nd \<Rightarrow>
                 (case sql_insert_task (insert_err e) (successor e taskRow nd) (tasks db) of
                    Inl err \<Rightarrow> db
                  | Inr ts \<Rightarrow> db\<lparr>tasks := ts\<rparr>))))"

definition doTaskUpdate :: "env \<Rightarrow> database \<Rightarrow> string \<Rightarrow> payload \<Rightarrow> database \<times> response" where
  "doTaskUpdate e db i req =
     (case run_err e of Some err \<Rightarrow> (db, StoreError err)
      | None \<Rightarrow>
         (let db1 = db\<lparr>tasks := sql_update_task (Some i) req (tasks db)\<rparr> in
          (if truthy_bool (p_completed req) \<and> truthy_str (p_recurring_rule req)
           then create_next e db1 i (p_recurring_rule req) else db1,
           Updated i req)))"

text \<open>\<^verbatim>\<open>app.put('/api/tasks/:id')\<close>.\<close>

definition put_task :: "env \<Rightarrow> database \<Rightarrow> string \<Rightarrow> payload \<Rightarrow> database \<times> response" where
  "put_task e db i req =
     (if truthy_bool (p_completed req) then
        (case select_incomplete_deps db ''dependencies'' i of
           Inl err \<Rightarrow> (db, StoreError err)
         | Inr rows \<Rightarrow>
             if rows \<noteq> [] then (db, DependencyBlocked rows) else doTaskUpdate e db i req)
      else doTaskUpdate e db i req)"

text \<open>\<^verbatim>\<open>app.delete('/api/tasks/:id')\<close>.\<close>

definition delete_task :: "env \<Rightarrow> database \<Rightarrow> string \<Rightarrow> database \<times> response" where
  "delete_task e db i =
     (case run_err e of Some err \<Rightarrow> (db, StoreError err)
      | None \<Rightarrow> (db\<lparr>tasks := filter (\<lambda>t. tid t \<noteq> i) (tasks db)\<rparr>, DeleteOk))"

section \<open>Time tracking\<close>

text \<open>\<^verbatim>\<open>app.post('/api/time/:entryId/stop')\<close>. A NULL start time counts as 0 in the
  subtraction.\<close>

definition stop_duration :: "int \<Rightarrow> int option \<Rightarrow> int" where
  "stop_duration stopped started =
     max 0 ((stopped - (case started of None \<Rightarrow> 0 | Some s \<Rightarrow> s)) div 1000)"

definition stop_entry :: "env \<Rightarrow> database \<Rightarrow> string \<Rightarrow> database \<times> response" where
  "stop_entry e db entryId =
     (let stopped = date_now e in
      case get_err e of Some err \<Rightarrow> (db, StoreError err)
      | None \<Rightarrow>
         (case find (\<lambda>r. eid r = entryId) (time_entries db) of None \<Rightarrow> (db, EntryNotFound)
          | Some row \<Rightarrow>
             (let dur = stop_duration stopped (started_at row) in
              case run_err e of Some err \<Rightarrow> (db, StoreError err)
              | None \<Rightarrow>
                 (db\<lparr>time_entries :=
                      map (\<lambda>r. if eid r = entryId
                                then r\<lparr>stopped_at := Some stopped, duration := Some dur\<rparr> else r)
                          (time_entries db)\<rparr>,
                  Stopped entryId stopped dur))))"

section \<open>Reminder scheduler\<close>

text \<open>
  One run of the job that \<^verbatim>\<open>cron.schedule\<close> registers. The clock, the error of the
  query, the outcome of each \<^verbatim>\<open>transporter.sendMail\<close> call and the error of each
  \<^verbatim>\<open>UPDATE reminders SET sent = 1\<close> are inputs, the last two by reminder identifier.
  The model runs each delivery callback before the next row; a run that overlaps the
  next one is outside the model. The mail's body text (it prints the date in the
  server's locale) is not modelled.
\<close>

record scan_env =
  scan_now :: int
  query_err :: "string option"
  send_err :: "string \<Rightarrow> string option"
  mark_err :: "string \<Rightarrow> string option"

record mail =
  mail_to :: string
  mail_subject :: string

text \<open>The columns that the two LEFT JOINs add to a reminder row.\<close>

definition user_email :: "database \<Rightarrow> reminder \<Rightarrow> string option" where
  "user_email db r =
     (case r_user_id r of None \<Rightarrow> None
      | Some u \<Rightarrow> (case find (\<lambda>x. uid x = u) (users db) of None \<Rightarrow> None | Some x \<Rightarrow> email x))"

definition task_title :: "database \<Rightarrow> reminder \<Rightarrow> string option" where
  "task_title db r =
     (case r_task_id r of None \<Rightarrow> None
      | Some t \<Rightarrow> (case find (\<lambda>x. tid x = t) (tasks db) of None \<Rightarrow> None | Some x \<Rightarrow> title x))"

text \<open>\<^verbatim>\<open>WHERE r.sent = 0 AND r.remind_at IS NOT NULL AND r.remind_at <= ?\<close>.\<close>

definition is_due :: "int \<Rightarrow> reminder \<Rightarrow> bool" where
  "is_due now r = (\<not> sent r \<and> (case remind_at r of None \<Rightarrow> False | Some a \<Rightarrow> a \<le> now))"

definition due_rows :: "database \<Rightarrow> int \<Rightarrow> (reminder \<times> string option \<times> string option) list" where
  "due_rows db now =
     map (\<lambda>r. (r, user_email db r, task_title db r)) (filter (is_due now) (reminders db))"

definition snoozed :: "int \<Rightarrow> reminder \<Rightarrow> bool" where
  "snoozed now r =
     (truthy_int (snoozed_until r) \<and> (case snoozed_until r of None \<Rightarrow> False | Some s \<Rightarrow> s > now))"

definition mark_sent :: "string \<Rightarrow> reminder list \<Rightarrow> reminder list" where
  "mark_sent i rs = map (\<lambda>r. if rid r = i then r\<lparr>sent := True\<rparr> else r) rs"

definition make_mail :: "string option \<Rightarrow> string option \<Rightarrow> mail" where
  "make_mail addr ttl =
     \<lparr>mail_to = (case addr of None \<Rightarrow> [] | Some a \<Rightarrow> a),
      mail_subject = ''Reminder: '' @ (case ttl of None \<Rightarrow> ''Task'' | Some s \<Rightarrow> if s = [] then ''Task'' else s)\<rparr>"

text \<open>
  The body of \<^verbatim>\<open>rows.forEach\<close>. The second component lists the deliveries attempted
  so far, each with the identifier of its reminder.
\<close>

definition fire :: "scan_env \<Rightarrow> database \<times> (string \<times> mail) list \<Rightarrow>
    reminder \<times> string option \<times> string option \<Rightarrow> database \<times> (string \<times> mail) list" where
  "fire e st row =
     (case st of (db, out) \<Rightarrow>
      case row of (rem, addr, ttl) \<Rightarrow>
        if snoozed (scan_now e) rem then (db, out)
        else if \<not> truthy_str addr then (db, out)
        else
          (let out' = out @ [(rid rem, make_mail addr ttl)] in
           case send_err e (rid rem) of Some err \<Rightarrow> (db, out')
           | None \<Rightarrow>
               (case mark_err e (rid rem) of Some err \<Rightarrow> (db, out')
                | None \<Rightarrow> (db\<lparr>reminders := mark_sent (rid rem) (reminders db)\<rparr>, out'))))"

definition scan :: "scan_env \<Rightarrow> database \<Rightarrow> database \<times> (string \<times> mail) list" where
  "scan e db =
     (case query_err e of Some err \<Rightarrow> (db, [])
      | None \<Rightarrow> foldl (fire e) (db, []) (due_rows db (scan_now e)))"

text \<open>Successive runs of the scheduler, one environment per run, all deliveries collected.\<close>

fun scans :: "scan_env list \<Rightarrow> database \<Rightarrow> database \<times> (string \<times> mail) list" where
  "scans [] db = (db, [])"
| "scans (e # es) db =
     (case scan e db of (db1, out1) \<Rightarrow>
      case scans es db1 of (db2, out2) \<Rightarrow> (db2, out1 @ out2))"

text \<open>\<^verbatim>\<open>app.post('/api/reminders/:id/snooze')\<close>.\<close>

definition snooze :: "env \<Rightarrow> database \<Rightarrow> string \<Rightarrow> int option \<Rightarrow> database" where
  "snooze e db i until =
     (case run_err e of Some err \<Rightarrow> db
      | None \<Rightarrow>
          db\<lparr>reminders := map (\<lambda>r. if rid r = i then r\<lparr>snoozed_until := until\<rparr> else r) (reminders db)\<rparr>)"

section \<open>Sync endpoint\<close>

text \<open>
  An element of \<^verbatim>\<open>req.body.ops\<close>. A missing \<^verbatim>\<open>type\<close> or \<^verbatim>\<open>action\<close> is any string other
  than the ones compared with; a missing payload is \<open>None\<close>.
\<close>

record sync_op =
  op_type :: string
  op_action :: string
  op_payload :: "payload option"

datatype sync_result = SyncOk "string option" | SyncFail string

text \<open>
  The inputs of one batch: the authenticated user, and for the operation at each
  position of the batch the identifier that \<^verbatim>\<open>uuidv4\<close> would return, the clock, and the
  error (if any) that the driver reports for its statement.
\<close>

record sync_env =
  user_id :: string
  uuid_at :: "nat \<Rightarrow> string"
  now_at :: "nat \<Rightarrow> int"
  err_at :: "nat \<Rightarrow> string option"

definition or_default :: "string \<Rightarrow> string option \<Rightarrow> string" where
  "or_default d s = (case s of None \<Rightarrow> d | Some x \<Rightarrow> if x = [] then d else x)"

definition str_or_null :: "string option \<Rightarrow> string option" where
  "str_or_null s = (if truthy_str s then s else None)"

definition due_or_null :: "due option \<Rightarrow> due option" where
  "due_or_null d = (if truthy_due d then d else None)"

definition create_row :: "sync_env \<Rightarrow> nat \<Rightarrow> string \<Rightarrow> payload \<Rightarrow> task" where
  "create_row e k i t =
     \<lparr>tid = i, title = Some (or_default [] (p_title t)),
      description = Some (or_default [] (p_description t)),
      priority = Some (or_default ''medium'' (p_priority t)),
      completed = truthy_bool (p_completed t), due_at = due_or_null (p_due_at t),
      created_by = Some (user_id e), assignee = str_or_null (p_assignee t),
      recurring_rule = str_or_null (p_recurring_rule t), created_at = Some (now_at e k)\<rparr>"

text \<open>\<^verbatim>\<open>INSERT OR REPLACE\<close> deletes the row with the same primary key, then inserts.\<close>

definition sql_replace_task :: "task \<Rightarrow> task list \<Rightarrow> task list" where
  "sql_replace_task row ts = filter (\<lambda>t. tid t \<noteq> tid row) ts @ [row]"

text \<open>
  The body of the loop of \<^verbatim>\<open>app.post('/api/sync')\<close> for the operation at position \<open>k\<close>:
  it pushes a result, or pushes nothing (an operation that is not a task create or
  update), or throws outside its \<^verbatim>\<open>try\<close> blocks (a create without payload). An update
  without payload throws inside the \<^verbatim>\<open>try\<close> and pushes the failure.
\<close>

datatype step = Skip | Push sync_result | Throw

definition sync_step :: "sync_env \<Rightarrow> nat \<Rightarrow> sync_op \<Rightarrow> database \<Rightarrow> database \<times> step" where
  "sync_step e k op db =
     (if op_type op = ''task'' then
        (if op_action op = ''create'' then
           (case op_payload op of None \<Rightarrow> (db, Throw)
            | Some t \<Rightarrow>
               (let i = (if truthy_str (p_id t) then or_default [] (p_id t) else uuid_at e k) in
                case err_at e k of
                  Some err \<Rightarrow> (db, Push (SyncFail err))
                | None \<Rightarrow>
                    (db\<lparr>tasks := sql_replace_task (create_row e k i t) (tasks db)\<rparr>,
                     Push (SyncOk (Some i)))))
         else if op_action op = ''update'' then
           (case op_payload op of
              None \<Rightarrow> (db, Push (SyncFail ''Cannot read properties of undefined''))
            | Some t \<Rightarrow>
               (case err_at e k of
                  Some err \<Rightarrow> (db, Push (SyncFail err))
                | None \<Rightarrow>
                    (db\<lparr>tasks := sql_update_task (p_id t) t (tasks db)\<rparr>, Push (SyncOk (p_id t)))))
         else (db, Skip))
      else (db, Skip))"

text \<open>
  The loop from position \<open>k\<close> on. The result list is \<open>None\<close> when the body throws: the
  response is never sent then.
\<close>

fun sync_loop :: "sync_env \<Rightarrow> nat \<Rightarrow> sync_op list \<Rightarrow> database \<Rightarrow> sync_result list \<Rightarrow>
    database \<times> sync_result list option" where
  "sync_loop e k [] db results = (db, Some results)"
| "sync_loop e k (op # ops) db results =
     (case sync_step e k op db of
        (db', Skip) \<Rightarrow> sync_loop e (Suc k) ops db' results
      | (db', Push r) \<Rightarrow> sync_loop e (Suc k) ops db' (results @ [r])
      | (db', Throw) \<Rightarrow> (db', None))"

definition sync :: "sync_env \<Rightarrow> database \<Rightarrow> sync_op list \<Rightarrow> database \<times> sync_result list option" where
  "sync e db ops = sync_loop e 0 ops db []"

section \<open>Vocabulary of the statements\<close>

text \<open>
  A row of the scheduler's query on which a delivery is attempted (it is not snoozed and
  has an address), and one whose delivery and whose marking both succeed.
\<close>

definition attempted :: "scan_env \<Rightarrow> reminder \<times> string option \<times> string option \<Rightarrow> bool" where
  "attempted e row = (\<not> snoozed (scan_now e) (fst row) \<and> truthy_str (fst (snd row)))"

definition delivered :: "scan_env \<Rightarrow> reminder \<times> string option \<times> string option \<Rightarrow> bool" where
  "delivered e row =
     (attempted e row \<and> send_err e (rid (fst row)) = None \<and> mark_err e (rid (fst row)) = None)"

text \<open>
  A sync operation in the sense of the data model: a create or an update that targets a
  task and carries a payload. The identifier it reports, and its result at position
  \<open>k\<close> of a batch.
\<close>

definition is_task_op :: "sync_op \<Rightarrow> bool" where
  "is_task_op op =
     (op_type op = ''task'' \<and> (op_action op = ''create'' \<or> op_action op = ''update'')
      \<and> op_payload op \<noteq> None)"

definition op_id :: "sync_env \<Rightarrow> nat \<Rightarrow> sync_op \<Rightarrow> string option" where
  "op_id e k op =
     (case op_payload op of None \<Rightarrow> None
      | Some t \<Rightarrow>
          if op_action op = ''create''
          then Some (if truthy_str (p_id t) then or_default [] (p_id t) else uuid_at e k)
          else p_id t)"

definition op_result :: "sync_env \<Rightarrow> nat \<Rightarrow> sync_op \<Rightarrow> sync_result" where
  "op_result e k op =
     (case err_at e k of Some err \<Rightarrow> SyncFail err | None \<Rightarrow> SyncOk (op_id e k op))"

text \<open>The identifiers of the reminders that a run marks as sent.\<close>

definition marked_ids :: "scan_env \<Rightarrow> database \<Rightarrow> string set" where
  "marked_ids e db =
     set (map (\<lambda>row. rid (fst row)) (filter (delivered e) (due_rows db (scan_now e))))"

text \<open>A task operation of a sync batch with the given action and payload.\<close>

definition task_op :: "string \<Rightarrow> payload \<Rightarrow> sync_op" where
  "task_op action t = \<lparr>op_type = ''task'', op_action = action, op_payload = Some t\<rparr>"

section \<open>Example stores\<close>

text \<open>Concrete inputs at which the theorems below are instantiated.\<close>

definition ex_env :: env where
  "ex_env = \<lparr>run_err = None, get_err = None, insert_err = None, date_new = 1706700000000,
     date_now = 1706700125000, uuidv4 = ''uuid-1'', tza = 0\<rparr>"

definition ex_task :: "string \<Rightarrow> bool \<Rightarrow> task" where
  "ex_task i c = \<lparr>tid = i, title = Some ''report'', description = Some ''weekly report'',
     priority = Some ''high'', completed = c, due_at = Some (DueMs 1706695200000),
     created_by = Some ''u1'', assignee = Some ''u2'', recurring_rule = Some ''daily'',
     created_at = Some 1700000000000\<rparr>"

definition ex_entry :: time_entry where
  "ex_entry = \<lparr>eid = ''e1'', e_task_id = Some ''A'', e_user_id = Some ''u1'',
     started_at = Some 1706700000000, stopped_at = None, duration = None\<rparr>"

definition ex_db :: database where
  "ex_db = \<lparr>users = [\<lparr>uid = ''u1'', email = Some ''u1@example.com''\<rparr>],
     tasks = [ex_task ''A'' False, ex_task ''B'' True],
     task_dependencies = [(''A'', ''B'')],
     time_entries = [ex_entry],
     reminders = []\<rparr>"

definition ex_req :: payload where
  "ex_req = \<lparr>p_id = None, p_title = Some ''renamed'', p_description = None, p_priority = None,
     p_completed = None, p_due_at = None, p_assignee = None, p_recurring_rule = None\<rparr>"

definition ex_rem :: "string \<Rightarrow> int option \<Rightarrow> bool \<Rightarrow> reminder" where
  "ex_rem i sn s = \<lparr>rid = i, r_task_id = Some ''A'', r_user_id = Some ''u1'',
     remind_at = Some 500, snoozed_until = sn, sent = s\<rparr>"

definition ex_rdb :: database where
  "ex_rdb = ex_db\<lparr>reminders :=
     [ex_rem ''r1'' None False, ex_rem ''r2'' (Some 2000) False, ex_rem ''r3'' None True]\<rparr>"

definition ex_scan_env :: "int \<Rightarrow> string option \<Rightarrow> scan_env" where
  "ex_scan_env now err = \<lparr>scan_now = now, query_err = None, send_err = (\<lambda>i. err),
     mark_err = (\<lambda>i. None)\<rparr>"

definition ex_sync_env :: "int \<Rightarrow> string option \<Rightarrow> sync_env" where
  "ex_sync_env now err = \<lparr>user_id = ''u1'', uuid_at = (\<lambda>k. ''uuid-2''), now_at = (\<lambda>k. now),
     err_at = (\<lambda>k. if k = 1 then err else None)\<rparr>"

definition ex_op :: "string \<Rightarrow> string \<Rightarrow> string \<Rightarrow> sync_op" where
  "ex_op action i ttl = \<lparr>op_type = ''task'', op_action = action,
     op_payload = Some (ex_req\<lparr>p_id := Some i, p_title := Some ttl\<rparr>)\<rparr>"

section \<open>Lookups and updates by primary key\<close>

lemma find_map_if:
  assumes "\<And>x. key (f x) = key x"
  shows "find (\<lambda>x. key x = i) (map (\<lambda>x. if key x = i then f x else x) xs)
     = map_option f (find (\<lambda>x. key x = i) xs)"
  by (induction xs) (simp_all add: assms)

lemma map_if_absent:
  assumes "i \<notin> set (map key xs)"
  shows "map (\<lambda>x. if key x = i then f x else x) xs = xs"
  using assms by (induction xs) auto

lemma filter_absent:
  assumes "i \<notin> set (map key xs)"
  shows "filter (\<lambda>x. key x \<noteq> i) xs = xs"
  using assms by (induction xs) auto

lemma find_absent:
  assumes "i \<notin> set (map key xs)"
  shows "find (\<lambda>x. key x = i) xs = None"
  using assms by (induction xs) auto

section \<open>Stopping a time entry\<close>

lemma stop_entry_found:
  assumes "find (\<lambda>r. eid r = i) (time_entries db) = Some row"
    and "get_err e = None" and "run_err e = None"
  shows "stop_entry e db i =
    (db\<lparr>time_entries := map (\<lambda>r. if eid r = i
          then r\<lparr>stopped_at := Some (date_now e),
             duration := Some (stop_duration (date_now e) (started_at row))\<rparr> else r) (time_entries db)\<rparr>,
     Stopped i (date_now e) (stop_duration (date_now e) (started_at row)))"
  by (simp add: stop_entry_def Let_def assms)

lemma stop_duration_skew: "stopped < t0 \<Longrightarrow> stop_duration stopped (Some t0) = 0"
  by (simp add: stop_duration_def max_def div_neg_pos_less0 less_imp_le)

text \<open>
  C9. Stopping an entry that exists and started at \<open>t0\<close> (milliseconds), when the store
  reports no error, answers with and stores the duration
  \<open>max 0 (floor ((stop - t0) / 1000))\<close>, the stop time being the clock read of the
  request. The duration is never negative; it is 125 when the stop time is
  \<open>t0 + 125000\<close> (125 seconds later) and 0 when the stop time is before \<open>t0\<close>.
\<close>

theorem stop_records_floored_seconds:
  assumes "find (\<lambda>r. eid r = i) (time_entries db) = Some row"
    and "started_at row = Some t0" and "get_err e = None" and "run_err e = None"
  shows "snd (stop_entry e db i) = Stopped i (date_now e) (max 0 ((date_now e - t0) div 1000))
    \<and> find (\<lambda>r. eid r = i) (time_entries (fst (stop_entry e db i))) =
        Some (row\<lparr>stopped_at := Some (date_now e),
                  duration := Some (max 0 ((date_now e - t0) div 1000))\<rparr>)
    \<and> 0 \<le> max 0 ((date_now e - t0) div 1000)
    \<and> (date_now e = t0 + 125000 \<longrightarrow> max 0 ((date_now e - t0) div 1000) = 125)
    \<and> (date_now e < t0 \<longrightarrow> max 0 ((date_now e - t0) div 1000) = 0)"
proof -
  let ?d = "max 0 ((date_now e - t0) div 1000)"
  have d: "stop_duration (date_now e) (started_at row) = ?d"
    by (simp add: stop_duration_def assms(2))
  note st = stop_entry_found [OF assms(1) assms(3) assms(4), unfolded d]
  have 1: "snd (stop_entry e db i) = Stopped i (date_now e) ?d"
    by (simp add: st)
  have 2: "find (\<lambda>r. eid r = i) (time_entries (fst (stop_entry e db i))) =
        Some (row\<lparr>stopped_at := Some (date_now e), duration := Some ?d\<rparr>)"
    unfolding st fst_conv
    by (simp add: find_map_if [where key = eid] assms(1))
  have 3: "0 \<le> ?d" by simp
  have 4: "date_now e = t0 + 125000 \<longrightarrow> ?d = 125" by simp
  have 5: "date_now e < t0 \<longrightarrow> ?d = 0"
    using stop_duration_skew [of "date_now e" t0] by (simp add: stop_duration_def)
  from 1 2 3 4 5 show ?thesis by blast
qed

theorem stop_records_floored_seconds_witness:
  "snd (stop_entry ex_env ex_db ''e1'') = Stopped ''e1'' 1706700125000 125
   \<and> find (\<lambda>r. eid r = ''e1'') (time_entries (fst (stop_entry ex_env ex_db ''e1''))) =
        Some (ex_entry\<lparr>stopped_at := Some 1706700125000, duration := Some 125\<rparr>)
   \<and> snd (stop_entry (ex_env\<lparr>date_now := 1706699999000\<rparr>) ex_db ''e1'') =
        Stopped ''e1'' 1706699999000 0"
proof -
  have f: "find (\<lambda>r. eid r = ''e1'') (time_entries ex_db) = Some ex_entry"
    by (simp add: ex_db_def ex_entry_def)
  have s: "started_at ex_entry = Some 1706700000000"
    by (simp add: ex_entry_def)
  have e: "get_err ex_env = None" "run_err ex_env = None" "date_now ex_env = 1706700125000"
    "get_err (ex_env\<lparr>date_now := 1706699999000\<rparr>) = None"
    "run_err (ex_env\<lparr>date_now := 1706699999000\<rparr>) = None"
    by (simp_all add: ex_env_def)
  from stop_records_floored_seconds [OF f s e(1,2)]
  have 1: "snd (stop_entry ex_env ex_db ''e1'') = Stopped ''e1'' 1706700125000 125
     \<and> find (\<lambda>r. eid r = ''e1'') (time_entries (fst (stop_entry ex_env ex_db ''e1''))) =
        Some (ex_entry\<lparr>stopped_at := Some 1706700125000, duration := Some 125\<rparr>)"
    by (simp add: e(3))
  from stop_records_floored_seconds [OF f s e(4,5)]
  have 2: "snd (stop_entry (ex_env\<lparr>date_now := 1706699999000\<rparr>) ex_db ''e1'') =
        Stopped ''e1'' 1706699999000 0"
    by simp
  from 1 2 show ?thesis by blast
qed

section \<open>Updating and deleting a task\<close>

lemma tid_update_row: "tid (update_row req t) = tid t"
  by (simp add: update_row_def)

lemma find_sql_update:
  "find (\<lambda>t. tid t = i) (sql_update_task (Some i) req ts)
     = map_option (update_row req) (find (\<lambda>t. tid t = i) ts)"
  unfolding sql_update_task_def option.inject
  by (rule find_map_if) (rule tid_update_row)

lemma sql_update_absent:
  "i \<notin> set (map tid ts) \<Longrightarrow> sql_update_task (Some i) req ts = ts"
  unfolding sql_update_task_def option.inject by (rule map_if_absent)


lemma find_append_hit: "find P xs = Some x \<Longrightarrow> find P (xs @ ys) = Some x"
  by (induction xs) (auto split: if_splits)

lemma find_create_next:
  "find (\<lambda>t. tid t = i) (tasks (create_next e db i rule)) = find (\<lambda>t. tid t = i) (tasks db)"
proof (cases "find (\<lambda>t. tid t = i) (tasks db)")
  case None
  then show ?thesis by (simp add: create_next_def split: option.splits)
next
  case (Some taskRow)
  then show ?thesis
    by (simp add: create_next_def sql_insert_task_def find_append_hit split: option.splits sum.splits)
qed

lemma create_next_absent:
  "i \<notin> set (map tid (tasks db)) \<Longrightarrow> create_next e db i rule = db"
  by (simp add: create_next_def find_absent [where key = tid] split: option.splits)

lemma tasks_doTaskUpdate_find:
  assumes "run_err e = None"
  shows "find (\<lambda>t. tid t = i) (tasks (fst (doTaskUpdate e db i req)))
     = map_option (update_row req) (find (\<lambda>t. tid t = i) (tasks db))"
  by (simp add: doTaskUpdate_def assms Let_def find_create_next find_sql_update)

lemma put_task_not_completed:
  "\<not> truthy_bool (p_completed req) \<Longrightarrow> put_task e db i req = doTaskUpdate e db i req"
  by (simp add: put_task_def)

text \<open>
  C10. \<^verbatim>\<open>doTaskUpdate\<close> writes all seven mutable columns from the request on every call
  that the store accepts: the row of the task afterwards has the request's title,
  description, priority, completed (as its truthiness), due_at, assignee and
  recurring_rule, whatever it held before, and keeps only its identifier, creator and
  creation time. A field that the request leaves out (\<open>None\<close>) is therefore stored as
  NULL. A request whose completed is not truthy reaches \<^verbatim>\<open>doTaskUpdate\<close> directly.
\<close>

theorem update_overwrites_all_seven_fields:
  assumes "run_err e = None" and "find (\<lambda>t. tid t = i) (tasks db) = Some old"
  shows "find (\<lambda>t. tid t = i) (tasks (fst (doTaskUpdate e db i req))) =
      Some (old\<lparr>title := p_title req, description := p_description req,
                priority := p_priority req, completed := truthy_bool (p_completed req),
                due_at := p_due_at req, assignee := p_assignee req,
                recurring_rule := p_recurring_rule req\<rparr>)
    \<and> (\<not> truthy_bool (p_completed req) \<longrightarrow> put_task e db i req = doTaskUpdate e db i req)"
  using tasks_doTaskUpdate_find [OF assms(1), of i db req] put_task_not_completed [of req e db i]
  by (simp add: assms(2) update_row_def)

theorem update_overwrites_all_seven_fields_witness:
  "find (\<lambda>t. tid t = ''A'') (tasks (fst (put_task ex_env ex_db ''A'' ex_req))) =
      Some \<lparr>tid = ''A'', title = Some ''renamed'', description = None, priority = None,
            completed = False, due_at = None, created_by = Some ''u1'', assignee = None,
            recurring_rule = None, created_at = Some 1700000000000\<rparr>"
  using update_overwrites_all_seven_fields [of ex_env "''A''" ex_db "ex_task ''A'' False" ex_req]
  by (simp add: ex_env_def ex_db_def ex_task_def ex_req_def truthy_bool_def)

lemma doTaskUpdate_absent:
  assumes "i \<notin> set (map tid (tasks db))" and "run_err e = None"
  shows "doTaskUpdate e db i req = (db, Updated i req)"
proof -
  have u: "db\<lparr>tasks := sql_update_task (Some i) req (tasks db)\<rparr> = db"
    by (simp add: sql_update_absent [OF assms(1)])
  have c: "create_next e db i (p_recurring_rule req) = db"
    by (rule create_next_absent [OF assms(1)])
  show ?thesis
    by (simp add: doTaskUpdate_def assms(2) Let_def u c)
qed

lemma delete_task_absent:
  assumes "i \<notin> set (map tid (tasks db))" and "run_err e = None"
  shows "delete_task e db i = (db, DeleteOk)"
proof -
  have "filter (\<lambda>t. tid t \<noteq> i) (tasks db) = tasks db"
    using assms(1) by (rule filter_absent)
  then show ?thesis
    by (simp add: delete_task_def assms(2))
qed

text \<open>
  C8, as amended. An update or a delete of an identifier that names no task leaves the
  store as it is and reports success: the update answers with the identifier and the
  request's fields, the delete with \<^verbatim>\<open>ok: true\<close>. (For the update this is the
  behaviour of \<^verbatim>\<open>doTaskUpdate\<close>, which a request reaches when its completed is not
  truthy.) Neither handler has a not-found answer.
\<close>

theorem unknown_task_update_delete_succeed:
  assumes "i \<notin> set (map tid (tasks db))" and "run_err e = None"
  shows "doTaskUpdate e db i req = (db, Updated i req)
     \<and> (\<not> truthy_bool (p_completed req) \<longrightarrow> put_task e db i req = (db, Updated i req))
     \<and> delete_task e db i = (db, DeleteOk)"
  using doTaskUpdate_absent [OF assms] delete_task_absent [OF assms] put_task_not_completed [of req e db i]
  by simp

theorem unknown_task_update_delete_succeed_witness:
  "put_task ex_env ex_db ''ghost'' ex_req = (ex_db, Updated ''ghost'' ex_req)
   \<and> delete_task ex_env ex_db ''ghost'' = (ex_db, DeleteOk)"
  using unknown_task_update_delete_succeed [of "''ghost''" ex_db ex_env ex_req]
  by (simp add: ex_env_def ex_db_def ex_task_def ex_req_def truthy_bool_def)

text \<open>The claim as stated fails: on a store without tasks both handlers report success.\<close>

theorem unknown_task_not_found_counterexample:
  "put_task ex_env (ex_db\<lparr>tasks := []\<rparr>) ''ghost'' ex_req = (ex_db\<lparr>tasks := []\<rparr>, Updated ''ghost'' ex_req)
   \<and> delete_task ex_env (ex_db\<lparr>tasks := []\<rparr>) ''ghost'' = (ex_db\<lparr>tasks := []\<rparr>, DeleteOk)"
  by (simp add: put_task_def doTaskUpdate_def delete_task_def sql_update_task_def
      ex_env_def ex_req_def truthy_bool_def truthy_str_def)

section \<open>The dependency check\<close>

text \<open>
  The handler queries a table \<^verbatim>\<open>dependencies\<close>; the schema only has
  \<^verbatim>\<open>task_dependencies\<close>. Every request with a truthy completed therefore ends with the
  driver's error, whatever the prerequisites are. On the table that exists, the same
  query returns exactly the incomplete prerequisites.
\<close>

lemma put_task_completed_fails:
  "truthy_bool (p_completed req) \<Longrightarrow>
   put_task e db i req = (db, StoreError ''SQLITE_ERROR: no such table: dependencies'')"
  by (simp add: put_task_def select_incomplete_deps_def schema_tables_def)

lemma select_incomplete_deps_task_dependencies:
  "\<exists>rows. select_incomplete_deps db ''task_dependencies'' i = Inr rows \<and>
     set rows = {dep. (i, dep) \<in> set (task_dependencies db) \<and>
                  (\<exists>x \<in> set (tasks db). tid x = dep \<and> \<not> completed x)}"
  by (auto simp: select_incomplete_deps_def schema_tables_def)

text \<open>
  C1, at a failing input. Task A depends on task B only, and B is completed: no
  prerequisite is incomplete, so the completion of A should be allowed. The handler
  answers with the store error of the missing table instead, and writes nothing.
\<close>

theorem completion_with_satisfied_prerequisites_rejected:
  "select_incomplete_deps ex_db ''task_dependencies'' ''A'' = Inr []
   \<and> put_task ex_env ex_db ''A'' (ex_req\<lparr>p_completed := Some True\<rparr>) =
       (ex_db, StoreError ''SQLITE_ERROR: no such table: dependencies'')"
  by (simp add: put_task_def select_incomplete_deps_def schema_tables_def ex_req_def
      truthy_bool_def ex_db_def ex_task_def)

section \<open>Calendar arithmetic\<close>

lemma div_succ:
  fixes a n :: int
  assumes "0 < n"
  shows "(a + 1) div n - a div n = (if (a + 1) mod n = 0 then 1 else 0)"
proof -
  define q where "q = a div n"
  define r where "r = a mod n"
  have a: "a = n * q + r" by (simp add: q_def r_def)
  have r: "0 \<le> r" "r < n" using assms by (simp_all add: r_def)
  show ?thesis
  proof (cases "r = n - 1")
    case True
    then have e: "a + 1 = n * (q + 1) + 0" using a by (simp add: algebra_simps)
    have "(a + 1) div n = q + 1"
      by (rule int_div_pos_eq [OF e]) (use assms in simp_all)
    moreover have "(a + 1) mod n = 0"
      by (rule int_mod_pos_eq [OF e]) (use assms in simp_all)
    ultimately show ?thesis by (simp add: q_def)
  next
    case False
    then have e: "a + 1 = n * q + (r + 1)" and b: "0 \<le> r + 1" "r + 1 < n"
      using a r by simp_all
    have "(a + 1) div n = q" by (rule int_div_pos_eq [OF e b])
    moreover have "(a + 1) mod n = r + 1" by (rule int_mod_pos_eq [OF e b])
    ultimately show ?thesis using r by (simp add: q_def)
  qed
qed

lemma mod_shift:
  fixes y n c :: int
  assumes "c mod n = 0"
  shows "((y - c) mod n = 0) = (y mod n = 0)"
  using assms by (metis diff_0_right mod_diff_right_eq)

lemma DayFromYear_step: "DayFromYear (y + 1) - DayFromYear y = (if InLeapYear y then 366 else 365)"
proof -
  have d4: "(y - 1968) div 4 - (y - 1969) div 4 = (if y mod 4 = 0 then 1 else 0)"
    using div_succ [of 4 "y - 1969"] mod_shift [of 1968 4 y] by simp
  have d100: "(y - 1900) div 100 - (y - 1901) div 100 = (if y mod 100 = 0 then 1 else 0)"
    using div_succ [of 100 "y - 1901"] mod_shift [of 1900 100 y] by simp
  have d400: "(y - 1600) div 400 - (y - 1601) div 400 = (if y mod 400 = 0 then 1 else 0)"
    using div_succ [of 400 "y - 1601"] mod_shift [of 1600 400 y] by simp
  have m1: "y mod 100 = 0 \<Longrightarrow> y mod 4 = 0" by auto
  have m2: "y mod 400 = 0 \<Longrightarrow> y mod 100 = 0" by auto
  have "DayFromYear (y + 1) - DayFromYear y =
      365 + ((y - 1968) div 4 - (y - 1969) div 4) - ((y - 1900) div 100 - (y - 1901) div 100)
        + ((y - 1600) div 400 - (y - 1601) div 400)"
    by (simp add: DayFromYear_def)
  also have "\<dots> = (if InLeapYear y then 366 else 365)"
    unfolding d4 d100 d400 InLeapYear_def using m1 m2 by auto
  finally show ?thesis .
qed








lemma month_cases:
  fixes m :: int
  assumes "0 \<le> m" and "m \<le> 11"
  shows "m = 0 \<or> m = 1 \<or> m = 2 \<or> m = 3 \<or> m = 4 \<or> m = 5 \<or> m = 6 \<or> m = 7 \<or> m = 8
    \<or> m = 9 \<or> m = 10 \<or> m = 11"
  using assms by arith

lemma month_of_range: "0 \<le> month_of leap d \<and> month_of leap d \<le> 11"
  by (simp add: month_of_def)





lemma MonthFromTime_range: "0 \<le> MonthFromTime t \<and> MonthFromTime t \<le> 11"
  unfolding MonthFromTime_def by (rule month_of_range)





text \<open>Adding \<open>k\<close> to the day of the month moves the time value by \<open>k\<close> whole days.\<close>

lemma MakeDay_same_month:
  "MakeDay (YearFromTime t) (MonthFromTime t) (DateFromTime t + k) = Day t + k"
proof -
  have "MonthFromTime t div 12 = 0" and "MonthFromTime t mod 12 = MonthFromTime t"
    using MonthFromTime_range [of t] by simp_all
  then show ?thesis
    by (simp add: MakeDay_def DateFromTime_def DayWithinYear_def Let_def)
qed

lemma MakeDate_Day: "MakeDate (Day t + k) (TimeWithinDay t) = t + k * msPerDay"
  by (simp add: MakeDate_def Day_def TimeWithinDay_def algebra_simps)

lemma setDate_plus_days: "setDate_plus tz k tv = TimeClip (tv + k * msPerDay)"
  by (simp add: setDate_plus_def Let_def MakeDay_same_month MakeDate_Day LocalTime_def UTC_def)

lemma Day_civil:
  "Day t = DayFromYear (YearFromTime t)
     + month_start (InLeapYear (YearFromTime t)) (MonthFromTime t) + DateFromTime t - 1"
  by (simp add: DateFromTime_def DayWithinYear_def)

lemma MakeDay_next_month:
  "MakeDay (YearFromTime t) (MonthFromTime t + 1) (DateFromTime t) =
     Day t + DaysInMonth (InLeapYear (YearFromTime t)) (MonthFromTime t)"
proof (cases "MonthFromTime t = 11")
  case True
  have "MakeDay (YearFromTime t) (MonthFromTime t + 1) (DateFromTime t) =
      DayFromYear (YearFromTime t + 1) + DateFromTime t - 1"
    by (simp add: MakeDay_def True month_start_def)
  also have "\<dots> = Day t + 31"
    using DayFromYear_step [of "YearFromTime t"] Day_civil [of t]
    by (simp add: True month_start_def split: if_splits)
  finally show ?thesis by (simp add: DaysInMonth_def True)
next
  case False
  then have r: "0 \<le> MonthFromTime t + 1" "MonthFromTime t + 1 \<le> 11"
    using MonthFromTime_range [of t] by simp_all
  then have "(MonthFromTime t + 1) div 12 = 0" "(MonthFromTime t + 1) mod 12 = MonthFromTime t + 1"
    by simp_all
  then show ?thesis
    using Day_civil [of t] False by (simp add: MakeDay_def DaysInMonth_def Let_def)
qed

text \<open>A month later is later by the length of the current month of local time.\<close>

lemma setMonth_plus_month_length:
  "setMonth_plus tz 1 tv =
     TimeClip (tv + DaysInMonth (InLeapYear (YearFromTime (LocalTime tz tv)))
                                (MonthFromTime (LocalTime tz tv)) * msPerDay)"
  by (simp add: setMonth_plus_def Let_def MakeDay_next_month MakeDate_Day LocalTime_def UTC_def)

lemma DaysInMonth_bounds:
  assumes "0 \<le> m" and "m \<le> 11"
  shows "28 \<le> DaysInMonth leap m \<and> DaysInMonth leap m \<le> 31"
  using month_cases [OF assms]
  by (elim disjE) (simp_all add: DaysInMonth_def month_start_def)

section \<open>Recurring tasks\<close>





text \<open>Both dates are valid whenever the time values are a month inside the range of
  \<^verbatim>\<open>Date\<close>.\<close>

lemma nextDue_defined:
  assumes "\<bar>cur\<bar> \<le> 8640000000000000 - 31 * msPerDay"
  shows "\<exists>nd. nextDue tz rule (Some cur) = Some nd"
proof -
  let ?n = "DaysInMonth (InLeapYear (YearFromTime (LocalTime tz cur))) (MonthFromTime (LocalTime tz cur))"
  have b: "28 \<le> ?n \<and> ?n \<le> 31"
    using MonthFromTime_range by (intro DaysInMonth_bounds) simp_all
  have "\<bar>cur + ?n * msPerDay\<bar> \<le> 8640000000000000"
    using assms b by (simp add: msPerDay_def abs_le_iff)
  then show ?thesis
    using assms
    by (simp add: nextDue_def setDate_plus_days setMonth_plus_month_length TimeClip_def msPerDay_def
        abs_le_iff)
qed

lemma currentDue_defined:
  assumes "\<bar>date_new e\<bar> \<le> 8640000000000000"
    and "\<forall>n. due_at row = Some (DueMs n) \<longrightarrow> \<bar>n\<bar> \<le> 8640000000000000"
    and "\<forall>t. due_at row = Some (DueIso t) \<longrightarrow> \<bar>t\<bar> \<le> 8640000000000000"
  shows "\<exists>cur. currentDue e row = Some cur"
  using assms
  by (auto simp: currentDue_def truthy_due_def new_Date_def TimeClip_def split: option.splits due.splits)









text \<open>Where the next month is too short the date overflows: one month after
  2024-01-31T10:00Z is 2024-03-02T10:00Z.\<close>

lemma ex_overflow: "setMonth_plus 0 1 1706695200000 = Some 1709373600000"
  by code_simp

section \<open>The reminder scheduler\<close>

lemma find_map_key:
  assumes "\<And>x. key (g x) = key x"
  shows "find (\<lambda>x. key x = i) (map g xs) = map_option g (find (\<lambda>x. key x = i) xs)"
  by (induction xs) (simp_all add: assms)

lemma find_distinct:
  assumes "distinct (map key xs)" and "x \<in> set xs"
  shows "find (\<lambda>r. key r = key x) xs = Some x"
  using assms by (induction xs) auto

lemma key_unique:
  assumes "distinct (map key xs)" and "x \<in> set xs" and "y \<in> set xs" and "key x = key y"
  shows "x = y"
  using assms by (meson distinct_map inj_onD)

lemma find_in_set: "find P xs = Some x \<Longrightarrow> x \<in> set xs"
  by (induction xs) (auto split: if_splits)

lemma fire_pair:
  "fire e (db, out) row =
     (if delivered e row then db\<lparr>reminders := mark_sent (rid (fst row)) (reminders db)\<rparr> else db,
      out @ (if attempted e row then [(rid (fst row), make_mail (fst (snd row)) (snd (snd row)))] else []))"
  by (cases row) (simp add: fire_def delivered_def attempted_def Let_def split: option.splits)

lemma map_mark_after_mark_sent:
  "map (\<lambda>r. if rid r \<in> S then r\<lparr>sent := True\<rparr> else r) (mark_sent i rs) =
   map (\<lambda>r. if rid r \<in> insert i S then r\<lparr>sent := True\<rparr> else r) rs"
  by (induction rs) (simp_all add: mark_sent_def)

text \<open>The loop of a run in closed form: the rows it marks and the deliveries it attempts.\<close>

lemma foldl_fire:
  "foldl (fire e) (db, out) rows =
     (db\<lparr>reminders :=
          map (\<lambda>r. if rid r \<in> set (map (\<lambda>row. rid (fst row)) (filter (delivered e) rows))
                    then r\<lparr>sent := True\<rparr> else r) (reminders db)\<rparr>,
      out @ map (\<lambda>row. (rid (fst row), make_mail (fst (snd row)) (snd (snd row))))
                (filter (attempted e) rows))"
proof (induction rows arbitrary: db out)
  case Nil
  show ?case by simp
next
  case (Cons row rows)
  show ?case
  proof (cases "delivered e row")
    case True
    then show ?thesis
      by (simp add: fire_pair Cons.IH map_mark_after_mark_sent delivered_def)
  next
    case False
    then show ?thesis
      by (simp add: fire_pair Cons.IH)
  qed
qed

lemma scan_closed:
  assumes "query_err e = None"
  shows "scan e db =
     (db\<lparr>reminders := map (\<lambda>r. if rid r \<in> marked_ids e db then r\<lparr>sent := True\<rparr> else r)
                             (reminders db)\<rparr>,
      map (\<lambda>row. (rid (fst row), make_mail (fst (snd row)) (snd (snd row))))
          (filter (attempted e) (due_rows db (scan_now e))))"
  by (simp add: scan_def assms foldl_fire marked_ids_def)

lemma scan_query_failed: "query_err e = Some err \<Longrightarrow> scan e db = (db, [])"
  by (simp add: scan_def)

lemma scan_delivery_source:
  assumes "(i, m) \<in> set (snd (scan e db))"
  shows "\<exists>x \<in> set (reminders db). rid x = i \<and> is_due (scan_now e) x \<and> \<not> snoozed (scan_now e) x
           \<and> truthy_str (user_email db x) \<and> m = make_mail (user_email db x) (task_title db x)"
proof (cases "query_err e")
  case None
  from assms obtain row where r: "row \<in> set (due_rows db (scan_now e))" "attempted e row"
      "i = rid (fst row)" "m = make_mail (fst (snd row)) (snd (snd row))"
    unfolding scan_closed [OF None] by auto
  from r(1) obtain x where x: "x \<in> set (reminders db)" "is_due (scan_now e) x"
      "row = (x, user_email db x, task_title db x)"
    unfolding due_rows_def by auto
  show ?thesis
    using x r(2,3,4) by (intro bexI [of _ x]) (simp_all add: attempted_def)
next
  case (Some err)
  then show ?thesis using assms by (simp add: scan_query_failed)
qed

lemma marked_ids_source:
  assumes "i \<in> marked_ids e db"
  shows "\<exists>x \<in> set (reminders db). rid x = i \<and> is_due (scan_now e) x \<and> \<not> snoozed (scan_now e) x
           \<and> send_err e i = None \<and> mark_err e i = None
           \<and> attempted e (x, user_email db x, task_title db x)"
proof -
  from assms obtain row where r: "row \<in> set (due_rows db (scan_now e))" "delivered e row"
      "i = rid (fst row)"
    unfolding marked_ids_def by auto
  from r(1) obtain x where x: "x \<in> set (reminders db)" "is_due (scan_now e) x"
      "row = (x, user_email db x, task_title db x)"
    unfolding due_rows_def by auto
  show ?thesis
    using x r(2,3) by (intro bexI [of _ x]) (simp_all add: delivered_def attempted_def)
qed

lemma scan_attempts:
  assumes "query_err e = None" and "x \<in> set (reminders db)" and "is_due (scan_now e) x"
    and "\<not> snoozed (scan_now e) x" and "truthy_str (user_email db x)"
  shows "(rid x, make_mail (user_email db x) (task_title db x)) \<in> set (snd (scan e db))"
proof -
  let ?row = "(x, user_email db x, task_title db x)"
  have "?row \<in> set (filter (attempted e) (due_rows db (scan_now e)))"
    using assms(2-5) by (simp add: due_rows_def attempted_def)
  then have "(\<lambda>row. (rid (fst row), make_mail (fst (snd row)) (snd (snd row)))) ?row
      \<in> (\<lambda>row. (rid (fst row), make_mail (fst (snd row)) (snd (snd row)))) `
          set (filter (attempted e) (due_rows db (scan_now e)))"
    by (rule imageI)
  then show ?thesis
    by (simp add: scan_closed [OF assms(1)])
qed

lemma scan_ids: "map rid (reminders (fst (scan e db))) = map rid (reminders db)"
proof (cases "query_err e")
  case None
  have "map rid (map (\<lambda>r. if rid r \<in> S then r\<lparr>sent := True\<rparr> else r) rs) = map rid rs" for S rs
    by (induction rs) simp_all
  then show ?thesis by (simp add: scan_closed [OF None])
next
  case (Some err)
  then show ?thesis by (simp add: scan_query_failed)
qed

lemma scan_row:
  assumes "distinct (map rid (reminders db))" and "x \<in> set (reminders db)"
  shows "find (\<lambda>r. rid r = rid x) (reminders (fst (scan e db))) =
     Some (if query_err e = None \<and> rid x \<in> marked_ids e db then x\<lparr>sent := True\<rparr> else x)"
proof (cases "query_err e")
  case None
  have "find (\<lambda>r. rid r = rid x)
       (map (\<lambda>r. if rid r \<in> marked_ids e db then r\<lparr>sent := True\<rparr> else r) (reminders db))
      = map_option (\<lambda>r. if rid r \<in> marked_ids e db then r\<lparr>sent := True\<rparr> else r)
          (find (\<lambda>r. rid r = rid x) (reminders db))"
    by (rule find_map_key) simp
  then show ?thesis
    by (simp add: scan_closed [OF None] None find_distinct [OF assms])
next
  case (Some err)
  then show ?thesis by (simp add: scan_query_failed find_distinct [OF assms])
qed

lemma is_due_later: "is_due now x \<Longrightarrow> now \<le> now' \<Longrightarrow> is_due now' x"
  by (auto simp: is_due_def split: option.splits)

lemma scan_not_delivered:
  assumes "distinct (map rid (reminders db))" and "x \<in> set (reminders db)"
    and "sent x \<or> snoozed (scan_now e) x"
  shows "rid x \<notin> fst ` set (snd (scan e db))"
proof
  assume "rid x \<in> fst ` set (snd (scan e db))"
  then obtain m where "(rid x, m) \<in> set (snd (scan e db))" by force
  from scan_delivery_source [OF this] obtain x' where x': "x' \<in> set (reminders db)"
      "rid x' = rid x" "is_due (scan_now e) x'" "\<not> snoozed (scan_now e) x'"
    by blast
  have "x' = x" by (rule key_unique [OF assms(1) x'(1) assms(2) x'(2)])
  then show False using x'(3,4) assms(3) by (simp add: is_due_def)
qed

lemma scan_not_marked:
  assumes "distinct (map rid (reminders db))" and "x \<in> set (reminders db)"
    and "sent x \<or> snoozed (scan_now e) x \<or> send_err e (rid x) \<noteq> None"
  shows "find (\<lambda>r. rid r = rid x) (reminders (fst (scan e db))) = Some x"
proof (cases "rid x \<in> marked_ids e db")
  case True
  from marked_ids_source [OF True] obtain x' where x': "x' \<in> set (reminders db)"
      "rid x' = rid x" "is_due (scan_now e) x'" "\<not> snoozed (scan_now e) x'"
      "send_err e (rid x) = None"
    by blast
  have "x' = x" by (rule key_unique [OF assms(1) x'(1) assms(2) x'(2)])
  then have False using x'(3,4,5) assms(3) by (simp add: is_due_def)
  then show ?thesis ..
next
  case False
  then show ?thesis by (simp add: scan_row [OF assms(1,2)])
qed

lemma scan_marked_delivered:
  assumes "distinct (map rid (reminders db))" and "x \<in> set (reminders db)"
    and "find (\<lambda>r. rid r = rid x) (reminders (fst (scan e db))) = Some y"
    and "sent y" and "\<not> sent x"
  shows "send_err e (rid x) = None \<and> rid x \<in> fst ` set (snd (scan e db))"
proof -
  have m: "query_err e = None \<and> rid x \<in> marked_ids e db"
    using assms(3,4,5) unfolding scan_row [OF assms(1,2)] by (auto split: if_splits)
  from marked_ids_source [of "rid x" e db] m obtain x' where x': "x' \<in> set (reminders db)"
      "rid x' = rid x" "is_due (scan_now e) x'" "\<not> snoozed (scan_now e) x'"
      "send_err e (rid x) = None" "attempted e (x', user_email db x', task_title db x')"
    by blast
  have "(rid x', make_mail (user_email db x') (task_title db x')) \<in> set (snd (scan e db))"
    using m x'(1,3,4,6) by (intro scan_attempts) (simp_all add: attempted_def)
  then have "fst (rid x', make_mail (user_email db x') (task_title db x')) \<in> fst ` set (snd (scan e db))"
    by (rule imageI)
  then show ?thesis using x'(2,5) by simp
qed

lemma scans_sent_never_delivered:
  assumes "distinct (map rid (reminders db))" and "x \<in> set (reminders db)" and "sent x"
  shows "rid x \<notin> fst ` set (snd (scans es db))"
  using assms
proof (induction es arbitrary: db)
  case Nil
  show ?case by simp
next
  case (Cons e es)
  obtain db1 out1 where s1: "scan e db = (db1, out1)" by (cases "scan e db")
  obtain db2 out2 where s2: "scans es db1 = (db2, out2)" by (cases "scans es db1")
  have 1: "rid x \<notin> fst ` set out1"
    using scan_not_delivered [OF Cons.prems(1,2), of e] Cons.prems(3) s1 by simp
  have d1: "distinct (map rid (reminders db1))"
    using scan_ids [of e db] Cons.prems(1) s1 by simp
  have "find (\<lambda>r. rid r = rid x) (reminders db1) = Some x"
    using scan_not_marked [OF Cons.prems(1,2), of e] Cons.prems(3) s1 by simp
  then have x1: "x \<in> set (reminders db1)" by (rule find_in_set)
  have 2: "rid x \<notin> fst ` set out2"
    using Cons.IH [OF d1 x1 Cons.prems(3)] s2 by simp
  show ?case using 1 2 by (simp add: s1 s2 image_Un)
qed

text \<open>Snoozing a reminder leaves every sent flag as it is.\<close>

lemma snooze_keeps_sent: "map sent (reminders (snooze e db i until)) = map sent (reminders db)"
proof -
  have "map sent (map (\<lambda>r. if rid r = i then r\<lparr>snoozed_until := until\<rparr> else r) rs) = map sent rs" for rs
    by (induction rs) simp_all
  then show ?thesis by (simp add: snooze_def split: option.splits)
qed

text \<open>
  C3. Let the reminder identifiers be distinct (the primary key) and \<open>x\<close> a stored
  reminder. After a run the store still has a row \<open>y\<close> for it, and: if \<open>y\<close> is sent while
  \<open>x\<close> was not, then the delivery for \<open>x\<close> was attempted in this run and the delivery
  collaborator reported success; if the collaborator reports a failure for \<open>x\<close>, the row
  is unchanged (so an unsent reminder stays unsent), and a reminder that was due is
  among the candidates of any later run; and once \<open>x\<close> is sent, no sequence of runs,
  whatever their clocks and delivery outcomes, attempts a delivery for it.
\<close>

theorem reminder_sent_only_on_success:
  assumes "distinct (map rid (reminders db))" and "x \<in> set (reminders db)"
  shows "(\<exists>y. find (\<lambda>r. rid r = rid x) (reminders (fst (scan e db))) = Some y
          \<and> (sent y \<and> \<not> sent x \<longrightarrow>
               send_err e (rid x) = None \<and> rid x \<in> fst ` set (snd (scan e db)))
          \<and> (send_err e (rid x) \<noteq> None \<longrightarrow> y = x))
    \<and> (send_err e (rid x) \<noteq> None \<and> is_due (scan_now e) x \<and> scan_now e \<le> now' \<longrightarrow>
          x \<in> set (filter (is_due now') (reminders (fst (scan e db)))))
    \<and> (sent x \<longrightarrow> rid x \<notin> fst ` set (snd (scans es db)))"
proof -
  let ?y = "if query_err e = None \<and> rid x \<in> marked_ids e db then x\<lparr>sent := True\<rparr> else x"
  have y: "find (\<lambda>r. rid r = rid x) (reminders (fst (scan e db))) = Some ?y"
    by (rule scan_row [OF assms])
  have a: "sent ?y \<and> \<not> sent x \<longrightarrow>
      send_err e (rid x) = None \<and> rid x \<in> fst ` set (snd (scan e db))"
    using scan_marked_delivered [OF assms y] by blast
  have b: "send_err e (rid x) \<noteq> None \<longrightarrow> ?y = x"
    using scan_not_marked [OF assms, of e] y by auto
  have 1: "\<exists>y. find (\<lambda>r. rid r = rid x) (reminders (fst (scan e db))) = Some y
          \<and> (sent y \<and> \<not> sent x \<longrightarrow>
               send_err e (rid x) = None \<and> rid x \<in> fst ` set (snd (scan e db)))
          \<and> (send_err e (rid x) \<noteq> None \<longrightarrow> y = x)"
    using y a b by blast
  have 2: "send_err e (rid x) \<noteq> None \<and> is_due (scan_now e) x \<and> scan_now e \<le> now' \<longrightarrow>
          x \<in> set (filter (is_due now') (reminders (fst (scan e db))))"
  proof
    assume h: "send_err e (rid x) \<noteq> None \<and> is_due (scan_now e) x \<and> scan_now e \<le> now'"
    then have "find (\<lambda>r. rid r = rid x) (reminders (fst (scan e db))) = Some x"
      using scan_not_marked [OF assms, of e] by blast
    then have "x \<in> set (reminders (fst (scan e db)))" by (rule find_in_set)
    moreover have "is_due now' x" using h is_due_later by blast
    ultimately show "x \<in> set (filter (is_due now') (reminders (fst (scan e db))))" by simp
  qed
  have 3: "sent x \<longrightarrow> rid x \<notin> fst ` set (snd (scans es db))"
    using scans_sent_never_delivered [OF assms] by blast
  from 1 2 3 show ?thesis by blast
qed

lemma ex_rdb_distinct: "distinct (map rid (reminders ex_rdb))"
  by (simp add: ex_rdb_def ex_rem_def)

lemma ex_rdb_members:
  "ex_rem ''r1'' None False \<in> set (reminders ex_rdb)"
  "ex_rem ''r2'' (Some 2000) False \<in> set (reminders ex_rdb)"
  "ex_rem ''r3'' None True \<in> set (reminders ex_rdb)"
  by (simp_all add: ex_rdb_def)

lemma ex_scan_ok:
  "find (\<lambda>r. rid r = ''r1'') (reminders (fst (scan (ex_scan_env 1000 None) ex_rdb))) =
     Some (ex_rem ''r1'' None True)"
  by code_simp

theorem reminder_sent_only_on_success_witness:
  "find (\<lambda>r. rid r = ''r1'') (reminders (fst (scan (ex_scan_env 1000 (Some ''smtp down'')) ex_rdb)))
      = Some (ex_rem ''r1'' None False)
   \<and> ex_rem ''r1'' None False \<in>
       set (filter (is_due 1060) (reminders (fst (scan (ex_scan_env 1000 (Some ''smtp down'')) ex_rdb))))
   \<and> ''r1'' \<in> fst ` set (snd (scan (ex_scan_env 1000 None) ex_rdb))
   \<and> ''r3'' \<notin> fst ` set (snd (scans [ex_scan_env 1000 None, ex_scan_env 1060 None] ex_rdb))"
proof -
  note d = ex_rdb_distinct and m = ex_rdb_members
  have f: "send_err (ex_scan_env 1000 (Some ''smtp down'')) (rid (ex_rem ''r1'' None False)) \<noteq> None"
    "is_due (scan_now (ex_scan_env 1000 (Some ''smtp down''))) (ex_rem ''r1'' None False)"
    "scan_now (ex_scan_env 1000 (Some ''smtp down'')) \<le> 1060"
    "rid (ex_rem ''r1'' None False) = ''r1''" "rid (ex_rem ''r3'' None True) = ''r3''"
    "sent (ex_rem ''r3'' None True)" "\<not> sent (ex_rem ''r1'' None False)"
    "sent (ex_rem ''r1'' None True)"
    by (simp_all add: ex_scan_env_def ex_rem_def is_due_def)
  from reminder_sent_only_on_success [OF d m(1), of "ex_scan_env 1000 (Some ''smtp down'')" 1060 "[]"] f
  have 1: "find (\<lambda>r. rid r = ''r1'') (reminders (fst (scan (ex_scan_env 1000 (Some ''smtp down'')) ex_rdb)))
      = Some (ex_rem ''r1'' None False)"
    and 2: "ex_rem ''r1'' None False \<in>
       set (filter (is_due 1060) (reminders (fst (scan (ex_scan_env 1000 (Some ''smtp down'')) ex_rdb))))"
    by metis+
  from reminder_sent_only_on_success [OF d m(1), of "ex_scan_env 1000 None" 1060 "[]"] f ex_scan_ok
  have 3: "''r1'' \<in> fst ` set (snd (scan (ex_scan_env 1000 None) ex_rdb))"
    by (metis option.inject)
  from reminder_sent_only_on_success [OF d m(3), of _ _ "[ex_scan_env 1000 None, ex_scan_env 1060 None]"] f
  have 4: "''r3'' \<notin> fst ` set (snd (scans [ex_scan_env 1000 None, ex_scan_env 1060 None] ex_rdb))"
    by metis
  from 1 2 3 4 show ?thesis by blast
qed

text \<open>
  C4. Let the reminder identifiers be distinct, \<open>x\<close> a stored reminder with
  snoozed_until \<open>s\<close>, and the clock of the run not before the epoch. If \<open>s\<close> is after the
  clock, the run attempts no delivery for \<open>x\<close> and leaves its row unchanged (so it is not
  marked sent), whether or not remind_at has passed. If the clock has reached \<open>s\<close>, the
  reminder is due (unsent, remind_at passed), the query succeeds and the user has an
  address, the run attempts its delivery.
\<close>

theorem snoozed_reminder_skipped:
  assumes "distinct (map rid (reminders db))" and "x \<in> set (reminders db)"
    and "0 \<le> scan_now e" and "snoozed_until x = Some s"
  shows "(scan_now e < s \<longrightarrow>
            rid x \<notin> fst ` set (snd (scan e db))
            \<and> find (\<lambda>r. rid r = rid x) (reminders (fst (scan e db))) = Some x)
    \<and> (s \<le> scan_now e \<and> is_due (scan_now e) x \<and> query_err e = None
          \<and> truthy_str (user_email db x) \<longrightarrow>
        (rid x, make_mail (user_email db x) (task_title db x)) \<in> set (snd (scan e db)))"
proof -
  have 1: "scan_now e < s \<longrightarrow>
            rid x \<notin> fst ` set (snd (scan e db))
            \<and> find (\<lambda>r. rid r = rid x) (reminders (fst (scan e db))) = Some x"
  proof
    assume "scan_now e < s"
    then have sn: "snoozed (scan_now e) x"
      using assms(3,4) by (simp add: snoozed_def truthy_int_def)
    show "rid x \<notin> fst ` set (snd (scan e db))
            \<and> find (\<lambda>r. rid r = rid x) (reminders (fst (scan e db))) = Some x"
      using scan_not_delivered [OF assms(1,2), of e] scan_not_marked [OF assms(1,2), of e] sn
      by blast
  qed
  have 2: "s \<le> scan_now e \<and> is_due (scan_now e) x \<and> query_err e = None
          \<and> truthy_str (user_email db x) \<longrightarrow>
        (rid x, make_mail (user_email db x) (task_title db x)) \<in> set (snd (scan e db))"
  proof
    assume h: "s \<le> scan_now e \<and> is_due (scan_now e) x \<and> query_err e = None
          \<and> truthy_str (user_email db x)"
    then have "\<not> snoozed (scan_now e) x"
      using assms(4) by (simp add: snoozed_def)
    then show "(rid x, make_mail (user_email db x) (task_title db x)) \<in> set (snd (scan e db))"
      using h assms(2) by (intro scan_attempts) simp_all
  qed
  from 1 2 show ?thesis by blast
qed

lemma ex_user_email: "user_email ex_rdb (ex_rem ''r2'' (Some 2000) False) = Some ''u1@example.com''"
  by code_simp

theorem snoozed_reminder_skipped_witness:
  "''r2'' \<notin> fst ` set (snd (scan (ex_scan_env 1000 None) ex_rdb))
   \<and> find (\<lambda>r. rid r = ''r2'') (reminders (fst (scan (ex_scan_env 1000 None) ex_rdb)))
       = Some (ex_rem ''r2'' (Some 2000) False)
   \<and> (''r2'', \<lparr>mail_to = ''u1@example.com'', mail_subject = ''Reminder: report''\<rparr>)
       \<in> set (snd (scan (ex_scan_env 2000 None) ex_rdb))"
proof -
  note d = ex_rdb_distinct and m = ex_rdb_members
  have s: "snoozed_until (ex_rem ''r2'' (Some 2000) False) = Some 2000"
    and r: "rid (ex_rem ''r2'' (Some 2000) False) = ''r2''"
    by (simp_all add: ex_rem_def)
  have e1: "0 \<le> scan_now (ex_scan_env 1000 None)" "scan_now (ex_scan_env 1000 None) < 2000"
    and e2: "0 \<le> scan_now (ex_scan_env 2000 None)" "2000 \<le> scan_now (ex_scan_env 2000 None)"
      "query_err (ex_scan_env 2000 None) = None"
      "is_due (scan_now (ex_scan_env 2000 None)) (ex_rem ''r2'' (Some 2000) False)"
    by (simp_all add: ex_scan_env_def is_due_def ex_rem_def)
  have u: "truthy_str (user_email ex_rdb (ex_rem ''r2'' (Some 2000) False))"
    by (simp add: ex_user_email truthy_str_def)
  have mm: "make_mail (user_email ex_rdb (ex_rem ''r2'' (Some 2000) False))
       (task_title ex_rdb (ex_rem ''r2'' (Some 2000) False))
     = \<lparr>mail_to = ''u1@example.com'', mail_subject = ''Reminder: report''\<rparr>"
    by code_simp
  from snoozed_reminder_skipped [OF d m(2) e1(1) s] e1(2) r
  have 1: "''r2'' \<notin> fst ` set (snd (scan (ex_scan_env 1000 None) ex_rdb))
   \<and> find (\<lambda>r. rid r = ''r2'') (reminders (fst (scan (ex_scan_env 1000 None) ex_rdb)))
       = Some (ex_rem ''r2'' (Some 2000) False)"
    by metis
  from snoozed_reminder_skipped [OF d m(2) e2(1) s] e2(2,3,4) u r mm
  have 2: "(''r2'', \<lparr>mail_to = ''u1@example.com'', mail_subject = ''Reminder: report''\<rparr>)
       \<in> set (snd (scan (ex_scan_env 2000 None) ex_rdb))"
    by metis
  from 1 2 show ?thesis by blast
qed

section \<open>The sync endpoint\<close>

lemma sync_step_result:
  assumes "is_task_op op"
  shows "snd (sync_step e k op db) = Push (op_result e k op)"
  using assms
  by (auto simp: is_task_op_def sync_step_def op_result_def op_id_def Let_def split: option.splits)

lemma sync_loop_results:
  assumes "\<forall>op \<in> set ops. is_task_op op"
  shows "snd (sync_loop e k ops db rs) =
     Some (rs @ map (\<lambda>(j, op). op_result e j op) (enumerate k ops))"
  using assms
proof (induction ops arbitrary: k db rs)
  case Nil
  show ?case by simp
next
  case (Cons op ops)
  obtain db' where s: "sync_step e k op db = (db', Push (op_result e k op))"
    using sync_step_result [of op e k db] Cons.prems by (cases "sync_step e k op db") simp
  have "\<forall>op \<in> set ops. is_task_op op" using Cons.prems by simp
  from Cons.IH [OF this] show ?case by (simp add: s)
qed

lemma sync_loop_append:
  assumes "sync_loop e k xs db rs = (db1, Some rs1)"
  shows "sync_loop e k (xs @ ys) db rs = sync_loop e (k + length xs) ys db1 rs1"
  using assms
proof (induction xs arbitrary: k db rs)
  case Nil
  then show ?case by simp
next
  case (Cons x xs)
  obtain db' st where s: "sync_step e k x db = (db', st)" by (cases "sync_step e k x db")
  show ?case
  proof (cases st)
    case Skip
    then have "sync_loop e (Suc k) xs db' rs = (db1, Some rs1)"
      using Cons.prems s by simp
    from Cons.IH [OF this] show ?thesis using s Skip by simp
  next
    case (Push r)
    then have "sync_loop e (Suc k) xs db' (rs @ [r]) = (db1, Some rs1)"
      using Cons.prems s by simp
    from Cons.IH [OF this] show ?thesis using s Push by simp
  next
    case Throw
    then show ?thesis using Cons.prems s by simp
  qed
qed

lemma sync_step_failed:
  assumes "is_task_op op" and "err_at e k = Some err"
  shows "sync_step e k op db = (db, Push (SyncFail err))"
  using assms
  by (auto simp: is_task_op_def sync_step_def Let_def split: option.splits)

text \<open>
  C5. For a batch of sync operations (each a task create or update with a payload) the
  response holds exactly one result per operation, in input order: the result at
  position \<open>k\<close> is that of the operation at position \<open>k\<close>, success with its identifier or
  the failure the store reported for it. A failure at position \<open>k\<close> is recorded in slot
  \<open>k\<close> and does not end the batch: the loop goes on with the operations after \<open>k\<close>, from
  the store as the operations before \<open>k\<close> left it.
\<close>

theorem sync_one_result_per_operation:
  assumes "\<forall>op \<in> set ops. is_task_op op"
  shows "\<exists>rs. snd (sync e db ops) = Some rs \<and> length rs = length ops
      \<and> (\<forall>k < length ops. rs ! k = op_result e k (ops ! k))
      \<and> (\<forall>k < length ops. \<forall>err. err_at e k = Some err \<longrightarrow>
            rs ! k = SyncFail err
            \<and> sync e db ops =
                sync_loop e (Suc k) (drop (Suc k) ops) (fst (sync e db (take k ops)))
                  (take k rs @ [SyncFail err]))"
proof -
  let ?f = "\<lambda>(j, op). op_result e j op"
  let ?rs = "map ?f (enumerate 0 ops)"
  have r: "snd (sync e db ops) = Some ?rs"
    using sync_loop_results [OF assms, of e 0 db "[]"] by (simp add: sync_def)
  have l: "length ?rs = length ops" by simp
  have n: "\<forall>k < length ops. ?rs ! k = op_result e k (ops ! k)"
    by (simp add: nth_enumerate_eq)
  have c: "\<forall>k < length ops. \<forall>err. err_at e k = Some err \<longrightarrow>
            ?rs ! k = SyncFail err
            \<and> sync e db ops =
                sync_loop e (Suc k) (drop (Suc k) ops) (fst (sync e db (take k ops)))
                  (take k ?rs @ [SyncFail err])"
  proof (intro allI impI)
    fix k err
    assume k: "k < length ops" and err: "err_at e k = Some err"
    have 1: "?rs ! k = SyncFail err"
      using n k err by (simp add: op_result_def)
    have split: "ops = take k ops @ ops ! k # drop (Suc k) ops"
      using k by (simp add: id_take_nth_drop)
    have pre: "\<forall>op \<in> set (take k ops). is_task_op op"
      using assms by (meson in_set_takeD)
    have op: "is_task_op (ops ! k)" using assms k by simp
    obtain db1 where d1: "sync_loop e 0 (take k ops) db [] = (db1, Some (map ?f (enumerate 0 (take k ops))))"
      using sync_loop_results [OF pre, of e 0 db "[]"]
      by (cases "sync_loop e 0 (take k ops) db []") simp
    have tk: "map ?f (enumerate 0 (take k ops)) = take k ?rs"
      using k by (simp add: take_map enumerate_eq_zip take_zip min_def)
    have lk: "length (take k ops) = k" using k by simp
    have "sync e db ops = sync_loop e 0 (take k ops @ ops ! k # drop (Suc k) ops) db []"
      using split by (simp add: sync_def)
    also have "\<dots> = sync_loop e k (ops ! k # drop (Suc k) ops) db1 (take k ?rs)"
      using sync_loop_append [OF d1, of "ops ! k # drop (Suc k) ops"] unfolding lk tk
      by (simp only: add_0)
    also have "\<dots> = sync_loop e (Suc k) (drop (Suc k) ops) db1 (take k ?rs @ [SyncFail err])"
      by (simp add: sync_step_failed [OF op err])
    finally have 2: "sync e db ops =
        sync_loop e (Suc k) (drop (Suc k) ops) (fst (sync e db (take k ops))) (take k ?rs @ [SyncFail err])"
      by (simp add: sync_def d1)
    from 1 2 show "?rs ! k = SyncFail err
            \<and> sync e db ops =
                sync_loop e (Suc k) (drop (Suc k) ops) (fst (sync e db (take k ops)))
                  (take k ?rs @ [SyncFail err])"
      by blast
  qed
  from r l n c show ?thesis by blast
qed

lemma ex_ops_task:
  "\<forall>op \<in> set [ex_op ''create'' ''N'' ''new'', ex_op ''update'' ''N'' ''x'', ex_op ''create'' ''M'' ''more''].
     is_task_op op"
  by (simp add: is_task_op_def ex_op_def)

lemma ex_ops_store:
  "map tid (tasks (fst (sync (ex_sync_env 1000 (Some ''disk full'')) ex_db
      [ex_op ''create'' ''N'' ''new'', ex_op ''update'' ''N'' ''x'', ex_op ''create'' ''M'' ''more'']))) =
     [''A'', ''B'', ''N'', ''M'']"
  by code_simp

theorem sync_one_result_per_operation_witness:
  "(\<exists>rs. snd (sync (ex_sync_env 1000 (Some ''disk full'')) ex_db
        [ex_op ''create'' ''N'' ''new'', ex_op ''update'' ''N'' ''x'', ex_op ''create'' ''M'' ''more'']) = Some rs
      \<and> length rs = 3 \<and> rs ! 0 = SyncOk (Some ''N'') \<and> rs ! 1 = SyncFail ''disk full''
      \<and> rs ! 2 = SyncOk (Some ''M''))
   \<and> map tid (tasks (fst (sync (ex_sync_env 1000 (Some ''disk full'')) ex_db
        [ex_op ''create'' ''N'' ''new'', ex_op ''update'' ''N'' ''x'', ex_op ''create'' ''M'' ''more'']))) =
     [''A'', ''B'', ''N'', ''M'']"
proof -
  let ?e = "ex_sync_env 1000 (Some ''disk full'')"
  let ?ops = "[ex_op ''create'' ''N'' ''new'', ex_op ''update'' ''N'' ''x'', ex_op ''create'' ''M'' ''more'']"
  from sync_one_result_per_operation [OF ex_ops_task, of ?e ex_db]
  obtain rs where rs: "snd (sync ?e ex_db ?ops) = Some rs" "length rs = length ?ops"
      "\<forall>k < length ?ops. rs ! k = op_result ?e k (?ops ! k)"
    by blast
  have r0: "op_result ?e 0 (?ops ! 0) = SyncOk (Some ''N'')"
    and r1: "op_result ?e 1 (?ops ! 1) = SyncFail ''disk full''"
    and r2: "op_result ?e 2 (?ops ! 2) = SyncOk (Some ''M'')"
    by code_simp+
  have "rs ! 0 = SyncOk (Some ''N'')" "rs ! 1 = SyncFail ''disk full''" "rs ! 2 = SyncOk (Some ''M'')"
    using rs(3) r0 r1 r2 by (simp_all del: nth_Cons_0 nth_Cons_Suc One_nat_def)
  then show ?thesis using rs(1,2) ex_ops_store by simp
qed

lemma sync_step_update_absent:
  assumes "i \<notin> set (map tid (tasks db))" and "err_at e k = None" and "p_id t = Some i"
  shows "sync_step e k (task_op ''update'' t) db = (db, Push (SyncOk (Some i)))"
proof -
  have "db\<lparr>tasks := sql_update_task (Some i) t (tasks db)\<rparr> = db"
    by (simp add: sql_update_absent [OF assms(1)])
  then show ?thesis
    by (simp add: sync_step_def task_op_def assms(2,3))
qed

text \<open>
  C6, as amended. A sync update whose identifier names no task, when the store reports
  no error, leaves the store unchanged and is reported as a success carrying that
  identifier in the operation's result slot.
\<close>

theorem sync_update_unknown_reports_ok:
  assumes "i \<notin> set (map tid (tasks db))" and "err_at e k = None" and "p_id t = Some i"
  shows "sync_step e k (task_op ''update'' t) db = (db, Push (SyncOk (Some i)))
    \<and> sync_loop e k [task_op ''update'' t] db rs = (db, Some (rs @ [SyncOk (Some i)]))"
  using sync_step_update_absent [OF assms] by simp

theorem sync_update_unknown_reports_ok_witness:
  "sync (ex_sync_env 1000 None) ex_db [task_op ''update'' (ex_req\<lparr>p_id := Some ''ghost''\<rparr>)] =
     (ex_db, Some [SyncOk (Some ''ghost'')])"
proof -
  have "''ghost'' \<notin> set (map tid (tasks ex_db))"
    by (simp add: ex_db_def ex_task_def)
  moreover have "err_at (ex_sync_env 1000 None) 0 = None"
    by (simp add: ex_sync_env_def)
  moreover have "p_id (ex_req\<lparr>p_id := Some ''ghost''\<rparr>) = Some ''ghost''"
    by simp
  ultimately show ?thesis
    using sync_update_unknown_reports_ok [of "''ghost''" ex_db "ex_sync_env 1000 None" 0
        "ex_req\<lparr>p_id := Some ''ghost''\<rparr>" "[]"]
    by (simp add: sync_def)
qed

text \<open>The claim as stated fails: the update of the unknown identifier \<^verbatim>\<open>ghost\<close> changes
  no task and its slot reports success.\<close>

theorem sync_update_unknown_counterexample:
  "snd (sync (ex_sync_env 1000 None) ex_db [ex_op ''update'' ''ghost'' ''x'']) =
     Some [SyncOk (Some ''ghost'')]
   \<and> map tid (tasks ex_db) = [''A'', ''B'']
   \<and> tasks (fst (sync (ex_sync_env 1000 None) ex_db [ex_op ''update'' ''ghost'' ''x''])) = tasks ex_db"
  by code_simp

lemma sync_step_create:
  assumes "err_at e k = None" and "p_id p = Some a" and "a \<noteq> []"
  shows "sync_step e k (task_op ''create'' p) db =
     (db\<lparr>tasks := filter (\<lambda>t. tid t \<noteq> a) (tasks db) @ [create_row e k a p]\<rparr>, Push (SyncOk (Some a)))"
  by (simp add: sync_step_def task_op_def assms truthy_str_def or_default_def
      sql_replace_task_def create_row_def)

lemma sync_step_update:
  assumes "err_at e k = None"
  shows "sync_step e k (task_op ''update'' u) db =
     (db\<lparr>tasks := sql_update_task (p_id u) u (tasks db)\<rparr>, Push (SyncOk (p_id u)))"
  by (simp add: sync_step_def task_op_def assms)

lemma sql_update_last:
  assumes "a \<notin> set (map tid ts)" and "tid r = a"
  shows "sql_update_task (Some a) u (ts @ [r]) = ts @ [update_row u r]"
proof -
  have "sql_update_task (Some a) u ts = ts" by (rule sql_update_absent [OF assms(1)])
  then show ?thesis using assms(2) by (simp add: sql_update_task_def)
qed

lemma filter_tid_absent: "a \<notin> set (map tid (filter (\<lambda>t. tid t \<noteq> a) ts))"
  by (induction ts) simp_all

lemma tid_create_row: "tid (create_row e k a p) = a"
  by (simp add: create_row_def)

lemma create_then_update:
  assumes "p_id p = Some a" and "a \<noteq> []" and "p_id u = Some a"
    and "err_at e 0 = None" and "err_at e 1 = None"
  shows "sync e db [task_op ''create'' p, task_op ''update'' u] =
     (db\<lparr>tasks := filter (\<lambda>t. tid t \<noteq> a) (tasks db) @ [update_row u (create_row e 0 a p)]\<rparr>,
      Some [SyncOk (Some a), SyncOk (Some a)])"
proof -
  have e1: "err_at e (Suc 0) = None" using assms(5) by simp
  show ?thesis
    by (simp add: sync_def sync_step_create [OF assms(4) assms(1,2)] sync_step_update [OF e1]
        assms(3) sql_update_last [OF filter_tid_absent tid_create_row])
qed

lemma create_row_clock:
  "user_id e2 = user_id e1 \<Longrightarrow>
   update_row u (create_row e2 k a p) = (update_row u (create_row e1 j a p))\<lparr>created_at := Some (now_at e2 k)\<rparr>"
  by (simp add: update_row_def create_row_def)

text \<open>
  C7, as amended. Let a create and an update carry the same client identifier \<open>a\<close>, and
  let the store report no error. Applying the batch of the two once replaces any task
  \<open>a\<close> by a single one, with the update's title. Applying the same batch again as the
  same user gives the same store except for that task's creation timestamp, which is
  the clock of the later create; the two stores are equal when the clock reads the same.
  Two creates with the same identifier leave one task \<open>a\<close>, holding the fields of the
  later create.
\<close>

theorem sync_replay_same_state_but_created_at:
  assumes "p_id p = Some a" and "a \<noteq> []" and "p_id u = Some a"
    and "err_at e1 0 = None" and "err_at e1 1 = None"
    and "err_at e2 0 = None" and "err_at e2 1 = None"
    and "user_id e2 = user_id e1"
  shows "fst (sync e1 db [task_op ''create'' p, task_op ''update'' u]) =
      db\<lparr>tasks := filter (\<lambda>t. tid t \<noteq> a) (tasks db) @ [update_row u (create_row e1 0 a p)]\<rparr>
    \<and> title (update_row u (create_row e1 0 a p)) = p_title u
    \<and> fst (sync e2 (fst (sync e1 db [task_op ''create'' p, task_op ''update'' u]))
              [task_op ''create'' p, task_op ''update'' u]) =
      db\<lparr>tasks := filter (\<lambda>t. tid t \<noteq> a) (tasks db) @
            [(update_row u (create_row e1 0 a p))\<lparr>created_at := Some (now_at e2 0)\<rparr>]\<rparr>
    \<and> (now_at e2 0 = now_at e1 0 \<longrightarrow>
         fst (sync e2 (fst (sync e1 db [task_op ''create'' p, task_op ''update'' u]))
              [task_op ''create'' p, task_op ''update'' u]) =
         fst (sync e1 db [task_op ''create'' p, task_op ''update'' u]))
    \<and> tasks (fst (sync e2 (fst (sync e1 db [task_op ''create'' p])) [task_op ''create'' p])) =
        filter (\<lambda>t. tid t \<noteq> a) (tasks db) @ [create_row e2 0 a p]"
proof -
  let ?B = "[task_op ''create'' p, task_op ''update'' u]"
  let ?r1 = "update_row u (create_row e1 0 a p)"
  let ?keep = "filter (\<lambda>t. tid t \<noteq> a) (tasks db)"
  have 1: "fst (sync e1 db ?B) = db\<lparr>tasks := ?keep @ [?r1]\<rparr>"
    by (simp add: create_then_update [OF assms(1,2,3,4,5)])
  have 2: "title ?r1 = p_title u"
    by (simp add: update_row_def)
  have t1: "tid ?r1 = a" by (simp add: tid_update_row tid_create_row)
  have 3: "fst (sync e2 (fst (sync e1 db ?B)) ?B) =
      db\<lparr>tasks := ?keep @ [?r1\<lparr>created_at := Some (now_at e2 0)\<rparr>]\<rparr>"
    unfolding 1
    by (simp add: create_then_update [OF assms(1,2,3,6,7)] t1 create_row_clock [OF assms(8), of u 0 a p 0])
  have c: "now_at e2 0 = now_at e1 0 \<Longrightarrow> ?r1\<lparr>created_at := Some (now_at e2 0)\<rparr> = ?r1"
    by (simp add: update_row_def create_row_def)
  have 4: "now_at e2 0 = now_at e1 0 \<longrightarrow> fst (sync e2 (fst (sync e1 db ?B)) ?B) = fst (sync e1 db ?B)"
  proof
    assume eq: "now_at e2 0 = now_at e1 0"
    have "fst (sync e2 (fst (sync e1 db ?B)) ?B) =
        db\<lparr>tasks := ?keep @ [?r1\<lparr>created_at := Some (now_at e2 0)\<rparr>]\<rparr>"
      by (rule 3)
    also have "\<dots> = db\<lparr>tasks := ?keep @ [?r1]\<rparr>"
      using c [OF eq] by simp
    also have "\<dots> = fst (sync e1 db ?B)"
      by (rule 1 [symmetric])
    finally show "fst (sync e2 (fst (sync e1 db ?B)) ?B) = fst (sync e1 db ?B)" .
  qed
  have 5: "tasks (fst (sync e2 (fst (sync e1 db [task_op ''create'' p])) [task_op ''create'' p])) =
        ?keep @ [create_row e2 0 a p]"
    by (simp add: sync_def sync_step_create [OF assms(4) assms(1,2)]
        sync_step_create [OF assms(6) assms(1,2)] tid_create_row)
  from 1 2 3 4 5 show ?thesis by blast
qed

theorem sync_replay_same_state_but_created_at_witness:
  "tasks (fst (sync (ex_sync_env 2000 None)
       (fst (sync (ex_sync_env 1000 None) ex_db
          [task_op ''create'' (ex_req\<lparr>p_id := Some ''N''\<rparr>),
           task_op ''update'' (ex_req\<lparr>p_id := Some ''N'', p_title := Some ''x''\<rparr>)]))
       [task_op ''create'' (ex_req\<lparr>p_id := Some ''N''\<rparr>),
        task_op ''update'' (ex_req\<lparr>p_id := Some ''N'', p_title := Some ''x''\<rparr>)])) =
     [ex_task ''A'' False, ex_task ''B'' True,
      \<lparr>tid = ''N'', title = Some ''x'', description = None, priority = None, completed = False,
       due_at = None, created_by = Some ''u1'', assignee = None, recurring_rule = None,
       created_at = Some 2000\<rparr>]
   \<and> fst (sync (ex_sync_env 1000 None)
       (fst (sync (ex_sync_env 1000 None) ex_db
          [task_op ''create'' (ex_req\<lparr>p_id := Some ''N''\<rparr>),
           task_op ''update'' (ex_req\<lparr>p_id := Some ''N'', p_title := Some ''x''\<rparr>)]))
       [task_op ''create'' (ex_req\<lparr>p_id := Some ''N''\<rparr>),
        task_op ''update'' (ex_req\<lparr>p_id := Some ''N'', p_title := Some ''x''\<rparr>)]) =
   fst (sync (ex_sync_env 1000 None) ex_db
          [task_op ''create'' (ex_req\<lparr>p_id := Some ''N''\<rparr>),
           task_op ''update'' (ex_req\<lparr>p_id := Some ''N'', p_title := Some ''x''\<rparr>)])"
  (is "?later \<and> ?same")
proof -
  let ?p = "ex_req\<lparr>p_id := Some ''N''\<rparr>"
  let ?u = "ex_req\<lparr>p_id := Some ''N'', p_title := Some ''x''\<rparr>"
  let ?B = "[task_op ''create'' ?p, task_op ''update'' ?u]"
  let ?e1 = "ex_sync_env 1000 None"
  let ?e2 = "ex_sync_env 2000 None"
  have ids: "p_id ?p = Some ''N''" "''N'' \<noteq> []" "p_id ?u = Some ''N''"
    by simp_all
  have e1: "err_at ?e1 0 = None" "err_at ?e1 1 = None"
    and e2: "err_at ?e2 0 = None" "err_at ?e2 1 = None"
    and us: "user_id ?e2 = user_id ?e1" "user_id ?e1 = user_id ?e1"
    by (simp_all add: ex_sync_env_def)
  from sync_replay_same_state_but_created_at [OF ids e1 e2 us(1), of ex_db]
  have "fst (sync ?e2 (fst (sync ?e1 ex_db ?B)) ?B) =
      ex_db\<lparr>tasks := filter (\<lambda>t. tid t \<noteq> ''N'') (tasks ex_db) @
            [(update_row ?u (create_row ?e1 0 ''N'' ?p))\<lparr>created_at := Some (now_at ?e2 0)\<rparr>]\<rparr>"
    by blast
  then have "tasks (fst (sync ?e2 (fst (sync ?e1 ex_db ?B)) ?B)) =
      filter (\<lambda>t. tid t \<noteq> ''N'') (tasks ex_db) @
            [(update_row ?u (create_row ?e1 0 ''N'' ?p))\<lparr>created_at := Some (now_at ?e2 0)\<rparr>]"
    by simp
  also have "\<dots> = [ex_task ''A'' False, ex_task ''B'' True,
      \<lparr>tid = ''N'', title = Some ''x'', description = None, priority = None, completed = False,
       due_at = None, created_by = Some ''u1'', assignee = None, recurring_rule = None,
       created_at = Some 2000\<rparr>]"
    by code_simp
  finally have later: ?later .
  from sync_replay_same_state_but_created_at [OF ids e1 e1 us(2), of ex_db]
  have same: ?same
    by blast
  from later same show ?thesis by blast
qed

text \<open>The claim as stated fails: replaying the batch at a later time changes the creation
  timestamp of the task, so the end states differ.\<close>

theorem sync_replay_counterexample:
  "map created_at (tasks (fst (sync (ex_sync_env 1000 None) ex_db
       [ex_op ''create'' ''N'' ''new'', ex_op ''update'' ''N'' ''x'']))) =
     [Some 1700000000000, Some 1700000000000, Some 1000]
   \<and> map created_at (tasks (fst (sync (ex_sync_env 2000 None)
       (fst (sync (ex_sync_env 1000 None) ex_db
          [ex_op ''create'' ''N'' ''new'', ex_op ''update'' ''N'' ''x'']))
       [ex_op ''create'' ''N'' ''new'', ex_op ''update'' ''N'' ''x'']))) =
     [Some 1700000000000, Some 1700000000000, Some 2000]
   \<and> fst (sync (ex_sync_env 2000 None)
       (fst (sync (ex_sync_env 1000 None) ex_db
          [ex_op ''create'' ''N'' ''new'', ex_op ''update'' ''N'' ''x'']))
       [ex_op ''create'' ''N'' ''new'', ex_op ''update'' ''N'' ''x'']) \<noteq>
     fst (sync (ex_sync_env 1000 None) ex_db
          [ex_op ''create'' ''N'' ''new'', ex_op ''update'' ''N'' ''x''])"
  by code_simp

end
